theory Spec2Isabelle
  imports Complex_Main
begin

section \<open>Python values\<close>

text \<open>
  Python's unbounded integers are \<open>int\<close>; its floats are taken as \<open>real\<close> (the lane
  width is the real-valued quotient of frame width and lane count). An exception that the
  source can raise is a value of \<open>py_error\<close>, and a function that can raise returns
  \<open>py_error + 'a\<close>.

  The floats of the source are doubles. Where a product such as \<open>i * lane_width\<close> or
  \<open>xmin * width\<close> is an integer in the reals, or within rounding of one, the double can
  fall on the other side of it and \<open>int\<close> then truncates to the neighbouring integer
  (for a width of 122 and 14 lanes, \<open>int(7 * (122 / 14))\<close> is 60 in doubles and 61 in
  the reals); a NaN or an infinity makes \<open>int\<close> raise. The model does not follow this.
  The concrete inputs of the examples below are away from such points.
\<close>

datatype py_error = ZeroDivisionError | KeyError | IndexError | AttributeError | TypeError | ValueError

text \<open>\<open>int(v)\<close> on a float truncates towards zero.\<close>

definition py_int :: "real \<Rightarrow> int" where
  "py_int v = (if 0 \<le> v then \<lfloor>v\<rfloor> else \<lceil>v\<rceil>)"

text \<open>\<open>range(n)\<close> over Python integers: empty when \<open>n \<le> 0\<close>.\<close>

definition py_range :: "int \<Rightarrow> int list" where
  "py_range n = [0..n - 1]"

section \<open>Lane mapping and activation line: \<open>owl.py\<close>\<close>

text \<open>
  In \<open>owl.py\<close> as it stands the first method of the class \<open>Owl\<close> is indented by three
  spaces and the others by four, so Python refuses the file. The methods are modelled as
  they are written.

  A call \<open>relay_controller.receive(relay, delay, time_stamp, duration)\<close> hands one spray
  job to the relay controller. The controller is a collaborator; the model records the
  calls, in order, as the list of jobs received.
\<close>

record spray_job =
  relay :: int
  delay :: real
  time_stamp :: real
  duration :: real

text \<open>
  \<open>Owl._setup_lane_coordinates\<close>:
  \<^verbatim>\<open>
  self.yAct = int(0.01 * self.frame_height)
  self.lane_width = self.frame_width / self.relay_num
  self.lane_coords = {i: int(i * self.lane_width) for i in range(self.relay_num)}
  \<close>
\<close>

record lane_setup =
  relay_num :: int
  yAct :: int
  lane_width :: real
  lane_coords :: "int \<rightharpoonup> int"

definition setup_lane_coordinates :: "int \<Rightarrow> int \<Rightarrow> int \<Rightarrow> py_error + lane_setup" where
  "setup_lane_coordinates frame_width frame_height n =
     (if n = 0 then Inl ZeroDivisionError
      else
        let lw = real_of_int frame_width / real_of_int n
        in Inr \<lparr> relay_num = n,
                 yAct = py_int ((1 / 100) * real_of_int frame_height),
                 lane_width = lw,
                 lane_coords = (\<lambda>i. if i \<in> set (py_range n)
                                     then Some (py_int (real_of_int i * lw)) else None) \<rparr>)"

text \<open>
  The lane loop of \<open>Owl.hoot\<close> (\<open>owl.py\<close>), for one centre:
  \<^verbatim>\<open>
  for i in range(self.relay_num):
      lane_start = lane_coords_int[i]
      lane_end = lane_start + self.lane_width
      if lane_start <= centre_x < lane_end:
          self.relay_controller.receive(relay=i, delay=delay,
                                        time_stamp=actuation_time,
                                        duration=actuation_duration)
  \<close>
  There is no \<open>break\<close>: every lane whose test succeeds receives a job.
\<close>

fun lane_loop ::
  "(int \<rightharpoonup> int) \<Rightarrow> real \<Rightarrow> int \<Rightarrow> real \<Rightarrow> real \<Rightarrow> real \<Rightarrow> int list \<Rightarrow> spray_job list
     \<Rightarrow> py_error + spray_job list" where
  "lane_loop lc lw centre_x d ts dur [] received = Inr received"
| "lane_loop lc lw centre_x d ts dur (i # rest) received =
     (case lc i of
        None \<Rightarrow> Inl KeyError
      | Some lane_start \<Rightarrow>
          let lane_end = real_of_int lane_start + lw
          in if real_of_int lane_start \<le> real_of_int centre_x \<and> real_of_int centre_x < lane_end
             then lane_loop lc lw centre_x d ts dur rest
                    (received @ [\<lparr> relay = i, delay = d, time_stamp = ts, duration = dur \<rparr>])
             else lane_loop lc lw centre_x d ts dur rest received)"

text \<open>
  The centre loop of \<open>Owl.hoot\<close> (\<open>owl.py\<close>):
  \<^verbatim>\<open>
  lane_coords_int = {k: int(v) for k, v in self.lane_coords.items()}
  for centre in weed_centres:
      if centre[1] > self.yAct:
          actuation_time = time.time()
          centre_x = centre[0]
          for i in range(self.relay_num): ...
  \<close>
  \<open>time.time()\<close> is read once for each centre beyond the line: \<open>clock k\<close> is the
  \<open>k\<close>-th reading, and the number of readings taken so far is threaded through.
\<close>

fun centre_loop ::
  "lane_setup \<Rightarrow> real \<Rightarrow> real \<Rightarrow> (nat \<Rightarrow> real) \<Rightarrow> nat \<Rightarrow> (int \<times> int) list \<Rightarrow> spray_job list
     \<Rightarrow> py_error + spray_job list" where
  "centre_loop s d dur clock k [] received = Inr received"
| "centre_loop s d dur clock k (centre # rest) received =
     (if snd centre > yAct s
      then
        (let actuation_time = clock k;
             centre_x = fst centre;
             lane_coords_int = (\<lambda>key. map_option (\<lambda>v. v) (lane_coords s key))
         in case lane_loop lane_coords_int (lane_width s) centre_x d actuation_time dur
                   (py_range (relay_num s)) received of
              Inl e \<Rightarrow> Inl e
            | Inr received' \<Rightarrow> centre_loop s d dur clock (Suc k) rest received')
      else centre_loop s d dur clock k rest received)"

text \<open>The relays that receive a job for a centre at \<open>centre_x\<close> beyond the activation line.\<close>

definition owl_lanes_of :: "int \<Rightarrow> int \<Rightarrow> int \<Rightarrow> py_error + int list" where
  "owl_lanes_of frame_width n centre_x =
     (case setup_lane_coordinates frame_width 0 n of
        Inl e \<Rightarrow> Inl e
      | Inr s \<Rightarrow>
          (case centre_loop s 0 0 (\<lambda>_. 0) 0 [(centre_x, yAct s + 1)] [] of
             Inl e \<Rightarrow> Inl e
           | Inr js \<Rightarrow> Inr (map relay js)))"

section \<open>Lane mapping and activation line: \<open>greenonbrown.py\<close>\<close>

text \<open>
  \<open>Owl.hoot\<close> of \<open>greenonbrown.py\<close> recomputes the lane table on every frame, into the
  dictionary \<open>self.laneCoords\<close> that lives on the object:
  \<^verbatim>\<open>
  for i in range(self.nozzleNum):
      laneX = int(i * laneWidth)
      self.laneCoords[i] = laneX
  \<close>
\<close>

fun laneCoords_loop :: "real \<Rightarrow> int list \<Rightarrow> (int \<rightharpoonup> int) \<Rightarrow> (int \<rightharpoonup> int)" where
  "laneCoords_loop laneWidth [] laneCoords = laneCoords"
| "laneCoords_loop laneWidth (i # rest) laneCoords =
     (let laneX = py_int (real_of_int i * laneWidth)
      in laneCoords_loop laneWidth rest (laneCoords(i \<mapsto> laneX)))"

text \<open>
  \<^verbatim>\<open>
  for i in range(self.nozzleNum):
      if int(self.laneCoords[i]) <= centre[0] < int(self.laneCoords[i] + laneWidth):
          self.controller.receive(nozzle=i, delay=delay, timeStamp=sprayTime, duration=sprayDur)
  \<close>
  Here the end of the lane is truncated too. The job record is the one of \<open>owl.py\<close>, with
  \<open>relay\<close> for \<open>nozzle\<close> and \<open>time_stamp\<close> for \<open>timeStamp\<close>.
\<close>

fun nozzle_loop ::
  "(int \<rightharpoonup> int) \<Rightarrow> real \<Rightarrow> int \<Rightarrow> real \<Rightarrow> real \<Rightarrow> real \<Rightarrow> int list \<Rightarrow> spray_job list
     \<Rightarrow> py_error + spray_job list" where
  "nozzle_loop laneCoords laneWidth centre_x d sprayTime sprayDur [] received = Inr received"
| "nozzle_loop laneCoords laneWidth centre_x d sprayTime sprayDur (i # rest) received =
     (case laneCoords i of
        None \<Rightarrow> Inl KeyError
      | Some laneX \<Rightarrow>
          if laneX \<le> centre_x \<and> centre_x < py_int (real_of_int laneX + laneWidth)
          then nozzle_loop laneCoords laneWidth centre_x d sprayTime sprayDur rest
                 (received @ [\<lparr> relay = i, delay = d, time_stamp = sprayTime, duration = sprayDur \<rparr>])
          else nozzle_loop laneCoords laneWidth centre_x d sprayTime sprayDur rest received)"

text \<open>
  \<^verbatim>\<open>
  for ID, centre in enumerate(weedCentres):
      if centre[1] > self.yAct:
          sprayTime = time.time()
          for i in range(self.nozzleNum): ...
  \<close>
\<close>

fun weedCentres_loop ::
  "int \<Rightarrow> int \<Rightarrow> (int \<rightharpoonup> int) \<Rightarrow> real \<Rightarrow> real \<Rightarrow> real \<Rightarrow> (nat \<Rightarrow> real) \<Rightarrow> nat \<Rightarrow> (int \<times> int) list
     \<Rightarrow> spray_job list \<Rightarrow> py_error + spray_job list" where
  "weedCentres_loop y_act nozzleNum laneCoords laneWidth d sprayDur clock k [] received = Inr received"
| "weedCentres_loop y_act nozzleNum laneCoords laneWidth d sprayDur clock k (centre # rest) received =
     (if snd centre > y_act
      then
        (let sprayTime = clock k
         in case nozzle_loop laneCoords laneWidth (fst centre) d sprayTime sprayDur
                   (py_range nozzleNum) received of
              Inl e \<Rightarrow> Inl e
            | Inr received' \<Rightarrow>
                weedCentres_loop y_act nozzleNum laneCoords laneWidth d sprayDur clock (Suc k) rest
                  received')
      else weedCentres_loop y_act nozzleNum laneCoords laneWidth d sprayDur clock k rest received)"

text \<open>
  The part of one cycle of \<open>Owl.hoot\<close> (\<open>greenonbrown.py\<close>) after detection:
  \<^verbatim>\<open>
  self.yAct = int((0.2) * frame.shape[0])
  laneWidth = imageOut.shape[1] / self.nozzleNum
  \<close>
  followed by the two loops above. It returns the jobs received and the updated
  \<open>self.laneCoords\<close>.
\<close>

definition hoot_actuate ::
  "int \<Rightarrow> int \<Rightarrow> int \<Rightarrow> (int \<rightharpoonup> int) \<Rightarrow> real \<Rightarrow> real \<Rightarrow> (nat \<Rightarrow> real) \<Rightarrow> (int \<times> int) list
     \<Rightarrow> py_error + (spray_job list \<times> (int \<rightharpoonup> int))" where
  "hoot_actuate frame_height image_width nozzleNum laneCoords0 d sprayDur clock weedCentres =
     (let y_act = py_int ((2 / 10) * real_of_int frame_height)
      in if nozzleNum = 0 then Inl ZeroDivisionError
         else
           let laneWidth = real_of_int image_width / real_of_int nozzleNum;
               laneCoords = laneCoords_loop laneWidth (py_range nozzleNum) laneCoords0
           in case weedCentres_loop y_act nozzleNum laneCoords laneWidth d sprayDur clock 0
                     weedCentres [] of
                Inl e \<Rightarrow> Inl e
              | Inr received \<Rightarrow> Inr (received, laneCoords))"

text \<open>The nozzles that receive a job for a centre at \<open>centre_x\<close> beyond the activation line.\<close>

definition gob_lanes_of :: "int \<Rightarrow> int \<Rightarrow> int \<Rightarrow> py_error + int list" where
  "gob_lanes_of image_width nozzleNum centre_x =
     (case hoot_actuate 0 image_width nozzleNum Map.empty 0 0 (\<lambda>_. 0) [(centre_x, 1)] of
        Inl e \<Rightarrow> Inl e
      | Inr (js, _) \<Rightarrow> Inr (map relay js))"

section \<open>Arrays\<close>

text \<open>
  The pixel arithmetic of OpenCV and NumPy is not part of this repository. An array is
  represented by the expression that computes it: each library call is a constructor,
  and nothing is assumed about pixel values. The index functions that \<open>greenonbrown.py\<close>
  imports from the module \<open>algorithms\<close> (\<open>exg\<close>, \<open>exgr\<close>, \<open>maxg\<close>, \<open>exg_standardised\<close>,
  \<open>exg_standardised_hue\<close>, \<open>gndvi\<close>, and the mask of \<open>hsv\<close>), whose source is missing,
  are constructors in the same way. \<open>Frame k h w\<close> is the \<open>k\<close>-th array
  delivered by the frame source, of height \<open>h\<close> and width \<open>w\<close>. The constructors
  \<open>Rectangle\<close> and \<open>PutText\<close> stand for \<open>cv2.rectangle\<close> and \<open>cv2.putText\<close>, which
  write into the array they are given; a buffer equals the frame that was read exactly
  when no such call has been applied to it.
\<close>

record hsv_range =
  hueMin :: int
  hueMax :: int
  brightnessMin :: int
  brightnessMax :: int
  saturationMin :: int
  saturationMax :: int

datatype colour_code = COLOR_BGR2RGB | COLOR_BGR2GRAY

datatype image =
    Frame nat int int
  | Rectangle image "int \<times> int" "int \<times> int"
  | PutText image "int \<times> (string + real)" "int \<times> int"
  | Resize image int int
  | CvtColor image colour_code
  | AsUint8 image
  | Exg image
  | Exgr image
  | Maxg image
  | ExgStandardised image
  | ExgStandardisedHue image hsv_range
  | HsvMask image hsv_range
  | Gndvi image
  | KeepAbove int image
  | ZeroAbove int image
  | Uint8Abs image
  | AdaptiveThreshold image
  | MorphClose nat image

text \<open>\<open>image.shape\<close>, as (height, width). \<open>cv2.resize(image, (w, h))\<close> takes the width first.\<close>

fun shape :: "image \<Rightarrow> int \<times> int" where
  "shape (Frame k h w) = (h, w)"
| "shape (Resize img w h) = (h, w)"
| "shape (Rectangle img p q) = shape img"
| "shape (PutText img l p) = shape img"
| "shape (CvtColor img c) = shape img"
| "shape (AsUint8 img) = shape img"
| "shape (Exg img) = shape img"
| "shape (Exgr img) = shape img"
| "shape (Maxg img) = shape img"
| "shape (ExgStandardised img) = shape img"
| "shape (ExgStandardisedHue img r) = shape img"
| "shape (HsvMask img r) = shape img"
| "shape (Gndvi img) = shape img"
| "shape (KeepAbove t img) = shape img"
| "shape (ZeroAbove t img) = shape img"
| "shape (Uint8Abs img) = shape img"
| "shape (AdaptiveThreshold img) = shape img"
| "shape (MorphClose n img) = shape img"

text \<open>
  A contour is the list of its points. What OpenCV computes from a binary image and from
  a contour is a parameter of the model: \<open>findContours\<close> (with \<open>RETR_EXTERNAL\<close>,
  \<open>CHAIN_APPROX_SIMPLE\<close>, followed by \<open>imutils.grab_contours\<close>), \<open>contourArea\<close> and
  \<open>boundingRect\<close>, which returns \<open>(x, y, w, h)\<close>.
\<close>

type_synonym contour = "(int \<times> int) list"

type_synonym box = "int \<times> int \<times> int \<times> int"

record cv2 =
  findContours :: "image \<Rightarrow> contour list"
  contourArea :: "contour \<Rightarrow> real"
  boundingRect :: "contour \<Rightarrow> box"

section \<open>\<open>green_on_brown\<close> (\<open>greenonbrown.py\<close>)\<close>

text \<open>
  Modelled from the spec: \<open>algorithms.hsv\<close>, which \<open>green_on_brown\<close> imports and whose
  source is missing. The call site unpacks a pair \<open>output, threshedAlready\<close>; the spec
  says that the HSV-range variant returns an already-binary mask.
\<close>

definition hsv :: "image \<Rightarrow> hsv_range \<Rightarrow> image \<times> bool" where
  "hsv img r = (HsvMask img r, True)"

text \<open>
  The selection of the vegetation index. The result is \<open>output\<close>, \<open>threshedAlready\<close> and
  the lines printed.
  \<^verbatim>\<open>
  threshedAlready = False
  if algorithm == 'exg':
      output = exg(image)
  elif algorithm == 'exgr':
      output = exgr(image)
  elif algorithm == 'maxg':
      output = maxg(image)
  elif algorithm == 'nexg':
      output = exg_standardised(image)
  elif algorithm == 'exhsv':
      output = exg_standardised_hue(image, hueMin=hueMin, ...)
  elif algorithm == 'hsv':
      output, threshedAlready = hsv(image, hueMin=hueMin, ...)
  elif algorithm == 'gndvi':
      output = gndvi(image)
  else:
      output = exg(image)
      print('[WARNING] DEFAULTED TO EXG')
  \<close>
\<close>

definition select_index :: "string \<Rightarrow> hsv_range \<Rightarrow> image \<Rightarrow> image \<times> bool \<times> string list" where
  "select_index algorithm r img =
     (let threshedAlready = False
      in if algorithm = ''exg'' then (Exg img, threshedAlready, [])
         else if algorithm = ''exgr'' then (Exgr img, threshedAlready, [])
         else if algorithm = ''maxg'' then (Maxg img, threshedAlready, [])
         else if algorithm = ''nexg'' then (ExgStandardised img, threshedAlready, [])
         else if algorithm = ''exhsv'' then (ExgStandardisedHue img r, threshedAlready, [])
         else if algorithm = ''hsv'' then
           (case hsv img r of (output, threshedAlready') \<Rightarrow> (output, threshedAlready', []))
         else if algorithm = ''gndvi'' then (Gndvi img, threshedAlready, [])
         else (Exg img, threshedAlready, [''[WARNING] DEFAULTED TO EXG'']))"

text \<open>
  \<^verbatim>\<open>
  if not threshedAlready:
      output = np.where(output > exgMin, output, 0)
      output = np.where(output > exgMax, 0, output)
      output = np.uint8(np.abs(output))
      thresholdOut = cv2.adaptiveThreshold(output, 255, cv2.ADAPTIVE_THRESH_GAUSSIAN_C,
                                           cv2.THRESH_BINARY_INV, 31, 2)
      thresholdOut = cv2.morphologyEx(thresholdOut, cv2.MORPH_CLOSE, kernel, iterations=1)
  if threshedAlready:
      thresholdOut = cv2.morphologyEx(output, cv2.MORPH_CLOSE, kernel, iterations=5)
  \<close>
  The flag is a Boolean, so exactly one of the two blocks runs.
\<close>

definition run_thresholds :: "int \<Rightarrow> int \<Rightarrow> image \<Rightarrow> bool \<Rightarrow> image" where
  "run_thresholds exgMin exgMax output threshedAlready =
     (if \<not> threshedAlready
      then MorphClose 1 (AdaptiveThreshold (Uint8Abs (ZeroAbove exgMax (KeepAbove exgMin output))))
      else MorphClose 5 output)"

text \<open>
  The loop over the contours. The accumulator holds \<open>boxes\<close>, \<open>weedCenters\<close> and the
  array \<open>image\<close> that the rectangles are drawn on.
  \<^verbatim>\<open>
  for c in cnts:
      if cv2.contourArea(c) > minArea:
          startX, startY, boxW, boxH = cv2.boundingRect(c)
          endX = startX + boxW
          endY = startY + boxH
          cv2.rectangle(image, (int(startX), int(startY)), (endX, endY), (0, 0, 255), 2)
          boxes.append([startX, startY, boxW, boxH])
          centerX = int(startX + (boxW / 2))
          centerY = int(startY + (boxH / 2))
          weedCenters.append([centerX, centerY])
  \<close>
\<close>

fun contour_loop ::
  "cv2 \<Rightarrow> int \<Rightarrow> contour list \<Rightarrow> box list \<times> (int \<times> int) list \<times> image
     \<Rightarrow> box list \<times> (int \<times> int) list \<times> image" where
  "contour_loop cv minArea [] acc = acc"
| "contour_loop cv minArea (c # rest) (boxes, weedCenters, img) =
     (if contourArea cv c > real_of_int minArea
      then
        (case boundingRect cv c of
           (startX, startY, boxW, boxH) \<Rightarrow>
             let endX = startX + boxW;
                 endY = startY + boxH;
                 img' = Rectangle img (startX, startY) (endX, endY);
                 boxes' = boxes @ [(startX, startY, boxW, boxH)];
                 centerX = py_int (real_of_int startX + real_of_int boxW / 2);
                 centerY = py_int (real_of_int startY + real_of_int boxH / 2)
             in contour_loop cv minArea rest (boxes', weedCenters @ [(centerX, centerY)], img'))
      else contour_loop cv minArea rest (boxes, weedCenters, img))"

record gob_params =
  exgMin :: int
  exgMax :: int
  hsv_thresholds :: hsv_range
  minArea :: int
  algorithm :: string

text \<open>
  \<open>green_on_brown\<close>: the three stages in sequence; \<open>threshold_stage\<close> is the part up
  to \<open>thresholdOut\<close>. The value is the tuple returned,
  \<open>(cnts, boxes, weedCenters, image)\<close>, where \<open>image\<close> is the array passed in after the
  drawing, together with the lines printed. The windows opened under \<open>show_display\<close>
  are not modelled.
  \<^verbatim>\<open>
  cnts = cv2.findContours(thresholdOut.copy(), cv2.RETR_EXTERNAL, cv2.CHAIN_APPROX_SIMPLE)
  cnts = imutils.grab_contours(cnts)
  weedCenters = []
  boxes = []
  for c in cnts: ...
  return cnts, boxes, weedCenters, image
  \<close>
\<close>

definition threshold_stage :: "gob_params \<Rightarrow> image \<Rightarrow> image \<times> string list" where
  "threshold_stage p img =
     (case select_index (algorithm p) (hsv_thresholds p) img of
        (output, threshedAlready, printed) \<Rightarrow>
          (run_thresholds (exgMin p) (exgMax p) output threshedAlready, printed))"

definition green_on_brown ::
  "cv2 \<Rightarrow> gob_params \<Rightarrow> image
     \<Rightarrow> (contour list \<times> box list \<times> (int \<times> int) list \<times> image) \<times> string list" where
  "green_on_brown cv p img =
     (case threshold_stage p img of
        (thresholdOut, printed) \<Rightarrow>
          let cnts = findContours cv thresholdOut
          in case contour_loop cv (minArea p) cnts ([], [], img) of
               (boxes, weedCenters, img') \<Rightarrow> ((cnts, boxes, weedCenters, img'), printed))"

section \<open>\<open>GreenOnGreen.inference\<close> (\<open>utils/greenongreen.py\<close>)\<close>

text \<open>
  An output tensor of the detector is a NumPy array: either rows of four numbers (the
  boxes, \<open>ymin, xmin, ymax, xmax\<close>) or a vector of numbers (classes, scores).
\<close>

datatype tensor = Rows "(real \<times> real \<times> real \<times> real) list" | Scalars "real list"

text \<open>
  The attributes of the object that \<open>inference\<close> reads. \<open>__init__\<close> binds \<open>labels\<close>,
  \<open>input_shape\<close> and \<open>output_names\<close>; it binds neither \<open>input_vstreams\<close> nor
  \<open>output_vstreams\<close>, so reading them raises \<open>AttributeError\<close> unless something else
  has bound them. \<open>vstreams\<close> is \<open>None\<close> when they are unbound, and otherwise the
  device: what \<open>output_vstreams.read()\<close> yields after \<open>input_vstreams.write([input_image])\<close>.
\<close>

record GreenOnGreen =
  labels :: "int \<rightharpoonup> string"
  input_shape :: "int \<times> int \<times> int"
  output_names :: "string list"
  vstreams :: "(image \<Rightarrow> tensor list) option"


text \<open>\<open>boxes.shape[0]\<close>.\<close>

fun shape0 :: "tensor \<Rightarrow> nat" where
  "shape0 (Rows m) = length m"
| "shape0 (Scalars v) = length v"

text \<open>
  \<open>scores[i] >= confidence\<close> and \<open>classes[i] == filter_id\<close> read a number at index \<open>i\<close>.
  An index out of range raises \<open>IndexError\<close>; on a tensor of rows the comparison gives
  an array of four truth values, and using it as a condition raises \<open>ValueError\<close>.
\<close>

fun scalar_at :: "tensor \<Rightarrow> nat \<Rightarrow> py_error + real" where
  "scalar_at (Scalars v) i = (if i < length v then Inr (v ! i) else Inl IndexError)"
| "scalar_at (Rows m) i = (if i < length m then Inl ValueError else Inl IndexError)"

text \<open>
  \<open>ymin, xmin, ymax, xmax = boxes[i]\<close>: unpacking a number raises \<open>TypeError\<close>.
\<close>

fun row_at :: "tensor \<Rightarrow> nat \<Rightarrow> py_error + (real \<times> real \<times> real \<times> real)" where
  "row_at (Rows m) i = (if i < length m then Inr (m ! i) else Inl IndexError)"
| "row_at (Scalars v) i = (if i < length v then Inl TypeError else Inl IndexError)"

text \<open>
  \<open>self.labels.get(classes[i], classes[i])\<close>: the keys are integers, and a float key
  finds the integer it equals.
\<close>

definition label_of :: "(int \<rightharpoonup> string) \<Rightarrow> real \<Rightarrow> string + real" where
  "label_of ls c =
     (if c = real_of_int \<lfloor>c\<rfloor>
      then (case ls \<lfloor>c\<rfloor> of Some l \<Rightarrow> Inl l | None \<Rightarrow> Inr c)
      else Inr c)"

text \<open>
  The loop over the detections. The accumulator holds \<open>self.boxes\<close>,
  \<open>self.weed_centers\<close> and the array \<open>image\<close> that is drawn on.
  \<^verbatim>\<open>
  for i in range(num_detections):
      if scores[i] >= confidence and classes[i] == filter_id:
          ymin, xmin, ymax, xmax = boxes[i]
          startX = int(xmin * width)
          startY = int(ymin * height)
          endX = int(xmax * width)
          endY = int(ymax * height)
          boxW = endX - startX
          boxH = endY - startY
          self.boxes.append([startX, startY, boxW, boxH])
          centerX = int(startX + (boxW / 2))
          centerY = int(startY + (boxH / 2))
          self.weed_centers.append([centerX, centerY])
          percent = int(100 * scores[i])
          label = f'{percent}% {self.labels.get(classes[i], classes[i])}'
          cv2.rectangle(image, (startX, startY), (endX, endY), (0, 0, 255), 2)
          cv2.putText(image, label, (startX, startY + 30), ...)
  \<close>
  The label is kept as the percentage and the name or class number it is formatted from.
\<close>

fun detection_loop ::
  "(int \<rightharpoonup> string) \<Rightarrow> tensor \<Rightarrow> tensor \<Rightarrow> tensor \<Rightarrow> real \<Rightarrow> int \<Rightarrow> int \<Rightarrow> int \<Rightarrow> nat list
     \<Rightarrow> box list \<times> (int \<times> int) list \<times> image
     \<Rightarrow> py_error + (box list \<times> (int \<times> int) list \<times> image)" where
  "detection_loop ls boxes classes scores confidence filter_id height width [] acc = Inr acc"
| "detection_loop ls boxes classes scores confidence filter_id height width (i # rest)
     (self_boxes, weed_centers, img) =
     (case scalar_at scores i of
        Inl e \<Rightarrow> Inl e
      | Inr score \<Rightarrow>
          if \<not> score \<ge> confidence
          then detection_loop ls boxes classes scores confidence filter_id height width rest
                 (self_boxes, weed_centers, img)
          else
            (case scalar_at classes i of
               Inl e \<Rightarrow> Inl e
             | Inr cls \<Rightarrow>
                 if cls \<noteq> real_of_int filter_id
                 then detection_loop ls boxes classes scores confidence filter_id height width rest
                        (self_boxes, weed_centers, img)
                 else
                   (case row_at boxes i of
                      Inl e \<Rightarrow> Inl e
                    | Inr (ymin, xmin, ymax, xmax) \<Rightarrow>
                        let startX = py_int (xmin * real_of_int width);
                            startY = py_int (ymin * real_of_int height);
                            endX = py_int (xmax * real_of_int width);
                            endY = py_int (ymax * real_of_int height);
                            boxW = endX - startX;
                            boxH = endY - startY;
                            self_boxes' = self_boxes @ [(startX, startY, boxW, boxH)];
                            centerX = py_int (real_of_int startX + real_of_int boxW / 2);
                            centerY = py_int (real_of_int startY + real_of_int boxH / 2);
                            weed_centers' = weed_centers @ [(centerX, centerY)];
                            percent = py_int (100 * score);
                            label = (percent, label_of ls cls);
                            img' = PutText (Rectangle img (startX, startY) (endX, endY)) label
                                     (startX, startY + 30)
                        in detection_loop ls boxes classes scores confidence filter_id height width
                             rest (self_boxes', weed_centers', img'))))"

text \<open>
  \<open>inference\<close>. The first component of the tuple returned is the contours position:
  \<open>None\<close> is Python's \<open>None\<close>. \<open>dict(zip(self.output_names, output_data))\<close> keeps the
  last tensor of a repeated name. The early return is taken when one of the three
  lookups gives \<open>None\<close>; the line it prints is not recorded. \<open>preprocess\<close> is the part
  up to \<open>input_image\<close>, \<open>read_outputs\<close> the dictionary \<open>outputs\<close>.
  \<^verbatim>\<open>
  height, width, _ = image.shape
  input_height, input_width, input_channels = self.input_shape
  resized_image = cv2.resize(image, (input_width, input_height))
  if input_channels == 3:
      input_image = cv2.cvtColor(resized_image, cv2.COLOR_BGR2RGB)
  else:
      input_image = cv2.cvtColor(resized_image, cv2.COLOR_BGR2GRAY)
  input_image = input_image.astype(np.uint8)
  input_data = [input_image]
  self.input_vstreams.write(input_data)
  output_data = self.output_vstreams.read()
  outputs = dict(zip(self.output_names, output_data))
  boxes = outputs.get('detection_boxes')
  classes = outputs.get('detection_classes')
  scores = outputs.get('detection_scores')
  if boxes is None or classes is None or scores is None:
      print("Output tensors not found.")
      return None, [], [], image
  self.weed_centers = []
  self.boxes = []
  num_detections = boxes.shape[0]
  for i in range(num_detections): ...
  return None, self.boxes, self.weed_centers, image
  \<close>
\<close>

definition preprocess :: "GreenOnGreen \<Rightarrow> image \<Rightarrow> image" where
  "preprocess self img =
     (case input_shape self of
        (input_height, input_width, input_channels) \<Rightarrow>
          let resized_image = Resize img input_width input_height
          in AsUint8
               (if input_channels = 3 then CvtColor resized_image COLOR_BGR2RGB
                else CvtColor resized_image COLOR_BGR2GRAY))"

definition read_outputs :: "string list \<Rightarrow> tensor list \<Rightarrow> (string \<rightharpoonup> tensor)" where
  "read_outputs names output_data = map_of (rev (zip names output_data))"

definition inference ::
  "GreenOnGreen \<Rightarrow> image \<Rightarrow> real \<Rightarrow> int
     \<Rightarrow> py_error + (contour list option \<times> box list \<times> (int \<times> int) list \<times> image)" where
  "inference self img confidence filter_id =
     (case shape img of
        (height, width) \<Rightarrow>
          let input_image = preprocess self img
          in case vstreams self of
               None \<Rightarrow> Inl AttributeError
             | Some device \<Rightarrow>
                 let output_data = device input_image;
                     outputs = read_outputs (output_names self) output_data;
                     boxes = outputs ''detection_boxes'';
                     classes = outputs ''detection_classes'';
                     scores = outputs ''detection_scores''
                 in case (boxes, classes, scores) of
                      (Some boxes', Some classes', Some scores') \<Rightarrow>
                        (case detection_loop (labels self) boxes' classes' scores'
                                confidence filter_id height width [0..<shape0 boxes']
                                ([], [], img) of
                           Inl e \<Rightarrow> Inl e
                         | Inr (self_boxes, weed_centers, img') \<Rightarrow>
                             Inr (None, self_boxes, weed_centers, img'))
                    | _ \<Rightarrow> Inr (None, [], [], img))"

text \<open>
  The array that \<open>inference\<close> was given, as the call leaves it, whether it returns or
  raises: \<open>cv2.rectangle\<close> and \<open>cv2.putText\<close> write into it in each iteration of the
  loop that keeps a detection, and nothing else writes into it. The loop is the one of
  \<open>detection_loop\<close>, followed for the array alone; an exception ends it with the array
  as it is then.
\<close>

fun detection_loop_buffer ::
  "(int \<rightharpoonup> string) \<Rightarrow> tensor \<Rightarrow> tensor \<Rightarrow> tensor \<Rightarrow> real \<Rightarrow> int \<Rightarrow> int \<Rightarrow> int \<Rightarrow> nat list
     \<Rightarrow> image \<Rightarrow> image" where
  "detection_loop_buffer ls boxes classes scores confidence filter_id height width [] img = img"
| "detection_loop_buffer ls boxes classes scores confidence filter_id height width (i # rest) img =
     (case scalar_at scores i of
        Inl e \<Rightarrow> img
      | Inr score \<Rightarrow>
          if \<not> score \<ge> confidence
          then detection_loop_buffer ls boxes classes scores confidence filter_id height width
                 rest img
          else
            (case scalar_at classes i of
               Inl e \<Rightarrow> img
             | Inr cls \<Rightarrow>
                 if cls \<noteq> real_of_int filter_id
                 then detection_loop_buffer ls boxes classes scores confidence filter_id height
                        width rest img
                 else
                   (case row_at boxes i of
                      Inl e \<Rightarrow> img
                    | Inr (ymin, xmin, ymax, xmax) \<Rightarrow>
                        let startX = py_int (xmin * real_of_int width);
                            startY = py_int (ymin * real_of_int height);
                            endX = py_int (xmax * real_of_int width);
                            endY = py_int (ymax * real_of_int height);
                            percent = py_int (100 * score);
                            label = (percent, label_of ls cls);
                            img' = PutText (Rectangle img (startX, startY) (endX, endY)) label
                                     (startX, startY + 30)
                        in detection_loop_buffer ls boxes classes scores confidence filter_id
                             height width rest img')))"

text \<open>
  Before the loop nothing is written: the array is untouched when the read of
  \<open>self.input_vstreams\<close> raises and when the early return is taken.
\<close>

definition inference_buffer :: "GreenOnGreen \<Rightarrow> image \<Rightarrow> real \<Rightarrow> int \<Rightarrow> image" where
  "inference_buffer self img confidence filter_id =
     (case shape img of
        (height, width) \<Rightarrow>
          (case vstreams self of
             None \<Rightarrow> img
           | Some device \<Rightarrow>
               let outputs = read_outputs (output_names self) (device (preprocess self img));
                   boxes = outputs ''detection_boxes'';
                   classes = outputs ''detection_classes'';
                   scores = outputs ''detection_scores''
               in case (boxes, classes, scores) of
                    (Some boxes', Some classes', Some scores') \<Rightarrow>
                      detection_loop_buffer (labels self) boxes' classes' scores' confidence
                        filter_id height width [0..<shape0 boxes'] img
                  | _ \<Rightarrow> img))"

section \<open>Arrays passed by reference\<close>

text \<open>
  Python passes an array by reference, and \<open>cv2.rectangle\<close> and \<open>cv2.putText\<close> write
  into the array they are given. The store is the list of the arrays allocated so far;
  an address is an index into it. \<open>frame.copy()\<close> allocates a new array with the same
  contents. The two detectors, as functions on the store, overwrite the array at the
  address they are passed with the drawn one, and return that address as the image of
  their result. \<open>inference\<close> can raise: its outcome, a tuple or an exception, comes
  with the store as the call leaves it.
\<close>

type_synonym store = "image list"



definition inference_at ::
  "GreenOnGreen \<Rightarrow> store \<Rightarrow> nat \<Rightarrow> real \<Rightarrow> int
     \<Rightarrow> (py_error + (contour list option \<times> box list \<times> (int \<times> int) list \<times> nat)) \<times> store" where
  "inference_at self h a confidence filter_id =
     ((case inference self (h ! a) confidence filter_id of
         Inl e \<Rightarrow> Inl e
       | Inr (cnts, boxes, weed_centers, img') \<Rightarrow> Inr (cnts, boxes, weed_centers, a)),
      h[a := inference_buffer self (h ! a) confidence filter_id])"


text \<open>
  The detection step of one cycle of \<open>Owl.hoot\<close> in \<open>owl.py\<close> when the algorithm is
  \<open>'gog'\<close>:
  \<^verbatim>\<open>
  cnts, boxes, weed_centres, image_out = weed_detector.inference(frame,
                                                                 confidence=confidence,
                                                                 filter_id=63)
  \<close>
\<close>

definition hoot_detect_gog ::
  "GreenOnGreen \<Rightarrow> real \<Rightarrow> store \<Rightarrow> nat
     \<Rightarrow> (py_error + (contour list option \<times> box list \<times> (int \<times> int) list \<times> nat)) \<times> store" where
  "hoot_detect_gog weed_detector confidence h frame =
     inference_at weed_detector h frame confidence 63"

section \<open>Leaving the main loop\<close>

text \<open>
  What the exit paths of \<open>Owl.hoot\<close> touch: the relay outputs (\<open>True\<close> is energised),
  the controller's \<open>running\<close> flag, the camera, the buzzer, the log, and whether
  \<open>sys.exit()\<close> has been called.
\<close>

datatype log_line = Stopped | Critical_error string

record rig =
  relays :: "bool list"
  running :: bool
  cam_started :: bool
  beeped :: "(real \<times> nat) list"
  logged :: "log_line list"
  sys_exit :: bool

text \<open>
  Modelled from the spec: the relay driver's \<open>all_off()\<close> and \<open>beep(duration, repeats)\<close>
  (\<open>relay_control\<close>, whose source is missing). \<open>all_off\<close> switches every relay off.
\<close>

definition all_off :: "rig \<Rightarrow> rig" where
  "all_off r = r\<lparr> relays := map (\<lambda>_. False) (relays r) \<rparr>"

definition beep :: "real \<Rightarrow> nat \<Rightarrow> rig \<Rightarrow> rig" where
  "beep dur repeats r = r\<lparr> beeped := beeped r @ [(dur, repeats)] \<rparr>"

definition log_line :: "log_line \<Rightarrow> rig \<Rightarrow> rig" where
  "log_line l r = r\<lparr> logged := logged r @ [l] \<rparr>"

text \<open>
  \<open>Owl.stop\<close>, the same in both files up to the names \<open>controller.solenoid\<close> and
  \<open>relay_controller.relay\<close>:
  \<^verbatim>\<open>
  self.relay_controller.running = False
  self.relay_controller.relay.all_off()
  self.relay_controller.relay.beep(duration=0.1)
  self.relay_controller.relay.beep(duration=0.1)
  self.cam.stop()
  ...
  sys.exit()
  \<close>
  The lines left out release the recorder, the sampler and the windows. In \<open>owl.py\<close>
  one of them reads \<open>self.sample_images\<close>, which is bound only when the controller
  is enabled: when it is unbound the read raises \<open>AttributeError\<close> and \<open>sys.exit()\<close>
  is not reached. The model takes it as bound; \<open>all_off()\<close> has been called by then in
  either case.
\<close>

definition stop :: "rig \<Rightarrow> rig" where
  "stop r =
     (let r1 = r\<lparr> running := False \<rparr>;
          r2 = all_off r1;
          r3 = beep (1 / 10) 1 r2;
          r4 = beep (1 / 10) 1 r3;
          r5 = r4\<lparr> cam_started := False \<rparr>
      in r5\<lparr> sys_exit := True \<rparr>)"

text \<open>What ends the \<open>while True\<close> loop, and the exception handlers of \<open>hoot\<close>.\<close>

datatype loop_end = Frame_is_None | Escape_key | KeyboardInterrupt | Exception string

text \<open>
  \<open>owl.py\<close>:
  \<^verbatim>\<open>
  except KeyboardInterrupt:
      ...
      self.logger.log_line("[INFO] Stopped.", verbose=True)
      self.stop()
  except Exception as e:
      self.logger.log_line(f"[CRITICAL ERROR] STOPPED: {e}", verbose=True)
      self.stop()
  \<close>
  On a missing frame the loop calls \<open>self.stop()\<close> after a \<open>print\<close>; on the escape key
  it logs and calls \<open>self.stop()\<close>.
\<close>

fun hoot_end_owl :: "loop_end \<Rightarrow> rig \<Rightarrow> rig" where
  "hoot_end_owl Frame_is_None r = stop r"
| "hoot_end_owl Escape_key r = stop (log_line Stopped r)"
| "hoot_end_owl KeyboardInterrupt r = stop (log_line Stopped r)"
| "hoot_end_owl (Exception e) r = stop (log_line (Critical_error e) r)"

text \<open>
  \<open>greenonbrown.py\<close>:
  \<^verbatim>\<open>
  except KeyboardInterrupt:
      fps.stop()
      self.logger.log_line_video("[INFO] Stopped. Approximate FPS: ...", verbose=True)
      self.stop()
  except Exception as e:
      self.controller.solenoid.beep(duration=0.5, repeats=5)
      self.logger.log_line("[CRITICAL ERROR] STOPPED: {}".format(e))
  \<close>
  After the second handler \<open>hoot\<close> returns, and the script, whose last statement is the
  call of \<open>hoot\<close>, ends.
\<close>

fun hoot_end_gob :: "loop_end \<Rightarrow> rig \<Rightarrow> rig" where
  "hoot_end_gob Frame_is_None r = stop r"
| "hoot_end_gob Escape_key r = stop (log_line Stopped r)"
| "hoot_end_gob KeyboardInterrupt r = stop (log_line Stopped r)"
| "hoot_end_gob (Exception e) r = log_line (Critical_error e) (beep (1 / 2) 5 r)"

section \<open>The actuation scheduler\<close>

text \<open>
  Modelled from the spec: the relay controller behind \<open>relay_controller.receive\<close>
  (\<open>relay_control\<close>, whose source is missing), as the data model and the transitions
  of the spec state it. A spray job is \<open>{lane, created_at, delay, duration}\<close>; a lane
  timer is \<open>{lane, state, activate_at, deactivate_at}\<close> with state \<open>Idle\<close>, \<open>Pending\<close>
  or \<open>Active\<close>. Beside the timer, a lane carries the level of its physical relay, which
  only the scheduler drives, and the number of times it has been driven off.
\<close>

record SprayJob =
  job_lane :: int
  created_at :: real
  job_delay :: real
  job_duration :: real

datatype lane_state = Idle | Pending | Active

record LaneTimer =
  lane :: int
  state :: lane_state
  activate_at :: "real option"
  deactivate_at :: "real option"

record Lane = LaneTimer +
  relay_level :: bool
  off_transitions :: nat

definition idle_lane :: "int \<Rightarrow> Lane" where
  "idle_lane i =
     \<lparr> lane = i, state = Idle, activate_at = None, deactivate_at = None,
       relay_level = False, off_transitions = 0 \<rparr>"

text \<open>
  A job for the lane arrives at time \<open>now\<close>.
  \<^item> \<open>Idle\<close>: schedule activation at \<open>now + delay\<close>, the state becomes \<open>Pending\<close>, arm
    deactivation at \<open>now + delay + duration\<close>.
  \<^item> \<open>Pending\<close> or \<open>Active\<close>: do not reset the activation timer already armed; extend
    the armed deactivation deadline to the later of the two deadlines.
\<close>

definition later_deadline :: "real option \<Rightarrow> real \<Rightarrow> real" where
  "later_deadline armed new = (case armed of None \<Rightarrow> new | Some cur \<Rightarrow> max cur new)"

definition submit :: "real \<Rightarrow> SprayJob \<Rightarrow> Lane \<Rightarrow> Lane" where
  "submit now j t =
     (case state t of
        Idle \<Rightarrow>
          t\<lparr> state := Pending,
             activate_at := Some (now + job_delay j),
             deactivate_at := Some (now + job_delay j + job_duration j) \<rparr>
      | Pending \<Rightarrow>
          t\<lparr> deactivate_at :=
               Some (later_deadline (deactivate_at t) (now + job_delay j + job_duration j)) \<rparr>
      | Active \<Rightarrow>
          t\<lparr> deactivate_at :=
               Some (later_deadline (deactivate_at t) (now + job_delay j + job_duration j)) \<rparr>)"

text \<open>
  The timer fires the activation deadline while \<open>Pending\<close>: drive the relay on, the
  state becomes \<open>Active\<close>. The timer fires the deactivation deadline while \<open>Active\<close>:
  drive the relay off, the state becomes \<open>Idle\<close>. Deadlines are wall-clock times: a
  deadline has fired at time \<open>now\<close> when it is not later than \<open>now\<close>.
\<close>

definition due :: "real option \<Rightarrow> real \<Rightarrow> bool" where
  "due deadline now = (case deadline of None \<Rightarrow> False | Some d \<Rightarrow> d \<le> now)"

definition fire_activation :: "real \<Rightarrow> Lane \<Rightarrow> Lane" where
  "fire_activation now t =
     (if state t = Pending \<and> due (activate_at t) now
      then t\<lparr> state := Active, relay_level := True \<rparr>
      else t)"

definition fire_deactivation :: "real \<Rightarrow> Lane \<Rightarrow> Lane" where
  "fire_deactivation now t =
     (if state t = Active \<and> due (deactivate_at t) now
      then t\<lparr> state := Idle, activate_at := None, deactivate_at := None,
              relay_level := False, off_transitions := Suc (off_transitions t) \<rparr>
      else t)"

definition advance :: "real \<Rightarrow> Lane \<Rightarrow> Lane" where
  "advance now t = fire_deactivation now (fire_activation now t)"

text \<open>
  A history of one lane: the arrivals of jobs and the moments at which the lane is
  looked at, each with its time, in order of time. Before anything happens at a time,
  the deadlines that have passed fire.
\<close>

datatype event = Job SprayJob | Look

fun run :: "(real \<times> event) list \<Rightarrow> Lane \<Rightarrow> Lane" where
  "run [] t = t"
| "run ((now, Job j) # rest) t = run rest (submit now j (advance now t))"
| "run ((now, Look) # rest) t = run rest (advance now t)"

definition looks :: "real list \<Rightarrow> (real \<times> event) list" where
  "looks ts = map (\<lambda>now. (now, Look)) ts"

text \<open>
  The deadline a lane is left with after a history, starting from the deadline \<open>D\<close>
  armed before it: the latest of \<open>D\<close> and the deadlines \<open>now + delay + duration\<close> of the
  jobs in the history.
\<close>

fun coalesced_deadline :: "real \<Rightarrow> (real \<times> event) list \<Rightarrow> real" where
  "coalesced_deadline D [] = D"
| "coalesced_deadline D ((now, Job j) # rest) =
     coalesced_deadline (max D (now + job_delay j + job_duration j)) rest"
| "coalesced_deadline D ((now, Look) # rest) = coalesced_deadline D rest"

text \<open>
  The jobs of a history overlap: each job arrives before the latest deadline of the jobs
  before it, starting from the deadline \<open>D\<close>.
\<close>

fun overlapping :: "real \<Rightarrow> (real \<times> event) list \<Rightarrow> bool" where
  "overlapping D [] = True"
| "overlapping D ((now, Job j) # rest) =
     (now < D \<and> overlapping (max D (now + job_delay j + job_duration j)) rest)"
| "overlapping D ((now, Look) # rest) = overlapping D rest"

text \<open>
  A lane in the middle of a pulse, seen at time \<open>T\<close>: it is \<open>Pending\<close> or \<open>Active\<close> with
  activation time \<open>on\<close> and deadline \<open>D\<close>, it has been switched off \<open>k\<close> times, and its
  relay is on exactly when it is \<open>Active\<close>, which it is only from \<open>on\<close>.
\<close>

definition armed :: "real \<Rightarrow> real \<Rightarrow> real \<Rightarrow> nat \<Rightarrow> Lane \<Rightarrow> bool" where
  "armed T on D k L =
     (state L \<noteq> Idle \<and> activate_at L = Some on \<and> deactivate_at L = Some D \<and> on \<le> D
      \<and> off_transitions L = k \<and> relay_level L = (state L = Active)
      \<and> (state L = Active \<longrightarrow> on \<le> T))"

section \<open>Centres and boxes\<close>

text \<open>
  The centre both detectors compute for a box \<open>[startX, startY, boxW, boxH]\<close>:
  \<open>int(startX + (boxW / 2))\<close>, \<open>int(startY + (boxH / 2))\<close>. A box is the span between its
  corner \<open>(startX, startY)\<close> and the opposite corner \<open>(startX + boxW, startY + boxH)\<close>.
\<close>

fun centre_of_box :: "box \<Rightarrow> int \<times> int" where
  "centre_of_box (startX, startY, boxW, boxH) =
     (py_int (real_of_int startX + real_of_int boxW / 2),
      py_int (real_of_int startY + real_of_int boxH / 2))"

fun in_box :: "int \<times> int \<Rightarrow> box \<Rightarrow> bool" where
  "in_box (cx, cy) (startX, startY, boxW, boxH) =
     (min startX (startX + boxW) \<le> cx \<and> cx \<le> max startX (startX + boxW) \<and>
      min startY (startY + boxH) \<le> cy \<and> cy \<le> max startY (startY + boxH))"

section \<open>Sample inputs\<close>

text \<open>
  Concrete inputs for the examples. The sample library instance finds the same two
  square contours in every binary image, measures a contour by the polygon area of its
  points and bounds it by the extent of its points, as OpenCV does.
\<close>

fun cross_sum :: "int \<times> int \<Rightarrow> contour \<Rightarrow> int" where
  "cross_sum first [] = 0"
| "cross_sum first [p] = fst p * snd first - fst first * snd p"
| "cross_sum first (p # q # rest) = fst p * snd q - fst q * snd p + cross_sum first (q # rest)"

definition polygon_area :: "contour \<Rightarrow> real" where
  "polygon_area c = (case c of [] \<Rightarrow> 0 | p # _ \<Rightarrow> \<bar>real_of_int (cross_sum p c)\<bar> / 2)"

fun extent :: "int list \<Rightarrow> int \<times> int" where
  "extent [] = (0, 0)"
| "extent [v] = (v, v)"
| "extent (v # rest) = (case extent rest of (lo, hi) \<Rightarrow> (min v lo, max v hi))"

definition bounding_box :: "contour \<Rightarrow> box" where
  "bounding_box c =
     (case (extent (map fst c), extent (map snd c)) of
        ((x0, x1), (y0, y1)) \<Rightarrow> (x0, y0, x1 - x0 + 1, y1 - y0 + 1))"

definition small_square :: contour where
  "small_square = [(10, 10), (10, 12), (12, 12), (12, 10)]"

definition large_square :: contour where
  "large_square = [(100, 50), (100, 89), (139, 89), (139, 50)]"

definition sample_cv :: cv2 where
  "sample_cv =
     \<lparr> findContours = (\<lambda>_. [small_square, large_square]),
       contourArea = polygon_area,
       boundingRect = bounding_box \<rparr>"

definition sample_range :: hsv_range where
  "sample_range =
     \<lparr> hueMin = 39, hueMax = 83, brightnessMin = 60, brightnessMax = 190,
       saturationMin = 50, saturationMax = 220 \<rparr>"

definition sample_params :: "string \<Rightarrow> gob_params" where
  "sample_params a =
     \<lparr> exgMin = 25, exgMax = 200, hsv_thresholds = sample_range, minArea = 10, algorithm = a \<rparr>"

definition sample_frame :: image where
  "sample_frame = Frame 0 320 416"

text \<open>
  A detector with its streams bound, whose device reports one box of class 63 with
  score 0.9.
\<close>

definition sample_detector :: GreenOnGreen where
  "sample_detector =
     \<lparr> labels = Map.empty,
       input_shape = (300, 300, 3),
       output_names = [''detection_boxes'', ''detection_classes'', ''detection_scores''],
       vstreams = Some (\<lambda>_. [Rows [(1 / 10, 1 / 10, 1 / 2, 1 / 2)], Scalars [63], Scalars [9 / 10]]) \<rparr>"

text \<open>A rig in the middle of a run, with relay 0 energised.\<close>

definition sample_rig :: rig where
  "sample_rig =
     \<lparr> relays = [True, False, False, False], running = True, cam_started = True,
       beeped = [], logged = [], sys_exit = False \<rparr>"

text \<open>The job of the end-to-end example: lane 2, delay 0.1 s, duration 0.2 s.\<close>

definition sample_job :: "real \<Rightarrow> SprayJob" where
  "sample_job t0 = \<lparr> job_lane = 2, created_at = t0, job_delay = 1 / 10, job_duration = 2 / 10 \<rparr>"

text \<open>A job whose deadline is earlier than the one already armed: no delay, 0.05 s.\<close>

definition short_job :: "real \<Rightarrow> SprayJob" where
  "short_job t0 = \<lparr> job_lane = 2, created_at = t0, job_delay = 0, job_duration = 1 / 20 \<rparr>"

section \<open>Properties: lanes and the activation line\<close>

lemmas lane_eval =
  owl_lanes_of_def gob_lanes_of_def hoot_actuate_def setup_lane_coordinates_def
  py_range_def py_int_def upto.simps Let_def

lemma py_int_zero: "py_int 0 = 0"
  by (simp add: py_int_def)

lemma py_int_between:
  "real_of_int a \<le> v \<Longrightarrow> v \<le> real_of_int b \<Longrightarrow> a \<le> py_int v \<and> py_int v \<le> b"
  by (auto simp: py_int_def le_floor_iff ceiling_le_iff) linarith+

text \<open>
  The lane loops in closed form: the jobs added are those of the lanes whose test
  succeeds, in the order of the lanes.
\<close>

lemma lane_loop_filter:
  assumes "\<forall>i \<in> set idx. lc i = Some (start i)"
  shows "lane_loop lc lw x d ts dur idx received =
     Inr (received @ map (\<lambda>i. \<lparr> relay = i, delay = d, time_stamp = ts, duration = dur \<rparr>)
            (filter (\<lambda>i. real_of_int (start i) \<le> real_of_int x
                          \<and> real_of_int x < real_of_int (start i) + lw) idx))"
  using assms by (induction idx arbitrary: received) (simp_all add: Let_def)

lemma nozzle_loop_filter:
  assumes "\<forall>i \<in> set idx. lc i = Some (start i)"
  shows "nozzle_loop lc lw x d ts dur idx received =
     Inr (received @ map (\<lambda>i. \<lparr> relay = i, delay = d, time_stamp = ts, duration = dur \<rparr>)
            (filter (\<lambda>i. start i \<le> x \<and> x < py_int (real_of_int (start i) + lw)) idx))"
  using assms by (induction idx arbitrary: received) simp_all

lemma laneCoords_loop_lookup:
  "laneCoords_loop lw idx lc i =
     (if i \<in> set idx then Some (py_int (real_of_int i * lw)) else lc i)"
  by (induction idx arbitrary: lc) (auto simp: Let_def)

lemma owl_lanes_of_filter:
  assumes "n \<noteq> 0"
  shows "owl_lanes_of W n x =
     Inr (filter (\<lambda>i. real_of_int (py_int (real_of_int i * (real_of_int W / real_of_int n)))
                          \<le> real_of_int x
                       \<and> real_of_int x
                          < real_of_int (py_int (real_of_int i * (real_of_int W / real_of_int n)))
                            + real_of_int W / real_of_int n)
            (py_range n))"
proof -
  let ?lw = "real_of_int W / real_of_int n"
  let ?lc = "\<lambda>i. if i \<in> set (py_range n) then Some (py_int (real_of_int i * ?lw)) else None"
  have "\<forall>i \<in> set (py_range n). ?lc i = Some (py_int (real_of_int i * ?lw))"
    by simp
  from lane_loop_filter [OF this, of ?lw x 0 0 0 "[]"] assms show ?thesis
    by (simp add: owl_lanes_of_def setup_lane_coordinates_def Let_def option.map_ident comp_def)
qed

lemma gob_lanes_of_filter:
  assumes "n \<noteq> 0"
  shows "gob_lanes_of W n x =
     Inr (filter (\<lambda>i. py_int (real_of_int i * (real_of_int W / real_of_int n)) \<le> x
                       \<and> x < py_int (real_of_int
                                (py_int (real_of_int i * (real_of_int W / real_of_int n)))
                              + real_of_int W / real_of_int n))
            (py_range n))"
proof -
  let ?lw = "real_of_int W / real_of_int n"
  let ?lc = "laneCoords_loop ?lw (py_range n) Map.empty"
  have "\<forall>i \<in> set (py_range n). ?lc i = Some (py_int (real_of_int i * ?lw))"
    by (simp add: laneCoords_loop_lookup)
  from nozzle_loop_filter [OF this, of ?lw x 0 0 0 "[]"] assms show ?thesis
    by (simp add: gob_lanes_of_def hoot_actuate_def Let_def py_int_zero comp_def)
qed

text \<open>A centre at \<open>x = W\<close> is in no lane, in either file.\<close>

lemma lane_start_bounds:
  assumes "0 < n" "0 \<le> W" "i \<in> set (py_range n)"
  shows "0 \<le> py_int (real_of_int i * (real_of_int W / real_of_int n))"
    and "real_of_int (py_int (real_of_int i * (real_of_int W / real_of_int n)))
           + real_of_int W / real_of_int n \<le> real_of_int W"
proof -
  define lw where "lw = real_of_int W / real_of_int n"
  from assms have i: "0 \<le> i" "i \<le> n - 1" by (simp_all add: py_range_def)
  from assms have lw: "0 \<le> lw" by (simp add: lw_def)
  from assms(1) have W: "real_of_int n * lw = real_of_int W" by (simp add: lw_def)
  from i lw have nn: "0 \<le> real_of_int i * lw" by simp
  then have fl: "py_int (real_of_int i * lw) = \<lfloor>real_of_int i * lw\<rfloor>"
    by (simp add: py_int_def)
  from nn have a: "0 \<le> py_int (real_of_int i * lw)" by (simp add: fl)
  have "real_of_int \<lfloor>real_of_int i * lw\<rfloor> \<le> real_of_int i * lw" by simp
  also have "\<dots> \<le> real_of_int (n - 1) * lw"
    using i lw by (intro mult_right_mono) simp_all
  finally have "real_of_int \<lfloor>real_of_int i * lw\<rfloor> + lw \<le> real_of_int (n - 1) * lw + lw"
    by simp
  also have "\<dots> = real_of_int n * lw"
    by (simp add: algebra_simps)
  finally have b: "real_of_int (py_int (real_of_int i * lw)) + lw \<le> real_of_int W"
    by (simp add: fl W)
  from a show "0 \<le> py_int (real_of_int i * (real_of_int W / real_of_int n))"
    by (simp add: lw_def)
  from b show "real_of_int (py_int (real_of_int i * (real_of_int W / real_of_int n)))
           + real_of_int W / real_of_int n \<le> real_of_int W"
    by (simp add: lw_def)
qed

lemma owl_no_lane_at_width:
  assumes "0 < n" "0 \<le> W"
  shows "owl_lanes_of W n W = Inr []"
proof -
  from assms have "n \<noteq> 0" by simp
  moreover have "\<not> (real_of_int W
      < real_of_int (py_int (real_of_int i * (real_of_int W / real_of_int n)))
        + real_of_int W / real_of_int n)" if "i \<in> set (py_range n)" for i
    using lane_start_bounds(2) [OF assms that] by simp
  ultimately show ?thesis
    by (simp add: owl_lanes_of_filter filter_empty_conv)
qed

lemma gob_no_lane_at_width:
  assumes "0 < n" "0 \<le> W"
  shows "gob_lanes_of W n W = Inr []"
proof -
  from assms have "n \<noteq> 0" by simp
  moreover have "\<not> (W < py_int (real_of_int
                        (py_int (real_of_int i * (real_of_int W / real_of_int n)))
                      + real_of_int W / real_of_int n))" if "i \<in> set (py_range n)" for i
  proof -
    let ?e = "real_of_int (py_int (real_of_int i * (real_of_int W / real_of_int n)))
                + real_of_int W / real_of_int n"
    from lane_start_bounds [OF assms that] assms have "real_of_int 0 \<le> ?e" "?e \<le> real_of_int W"
      by simp_all
    from py_int_between [OF this] show ?thesis by simp
  qed
  ultimately show ?thesis
    by (simp add: gob_lanes_of_filter filter_empty_conv)
qed

text \<open>
  In \<open>owl.py\<close> every centre with \<open>0 \<le> x < W\<close> is in at least one lane: in the last
  lane whose truncated start is not beyond it.
\<close>

lemma owl_some_lane:
  assumes "0 < n" "0 \<le> x" "x < W"
  shows "\<exists>i ls. owl_lanes_of W n x = Inr (i # ls)"
proof -
  define lw where "lw = real_of_int W / real_of_int n"
  define start where "start i = py_int (real_of_int i * lw)" for i
  from assms have lwpos: "0 \<le> lw" by (simp add: lw_def)
  from assms(1) have W: "real_of_int n * lw = real_of_int W" by (simp add: lw_def)
  have fl: "start i = \<lfloor>real_of_int i * lw\<rfloor>" if "0 \<le> i" for i
    using that lwpos by (simp add: start_def py_int_def)
  have low: "real_of_int i * lw - 1 < real_of_int (start i)" if "0 \<le> i" for i
    using fl [OF that] by linarith
  define S where "S = {i \<in> set (py_range n). start i \<le> x}"
  have fin: "finite S" by (simp add: S_def)
  from assms have "0 \<in> S" by (simp add: S_def py_range_def start_def py_int_zero)
  then have ne: "S \<noteq> {}" by blast
  define i where "i = Max S"
  from fin ne have iS: "i \<in> S" unfolding i_def by (rule Max_in)
  then have ir: "i \<in> set (py_range n)" and st: "start i \<le> x" by (simp_all add: S_def)
  then have i0: "0 \<le> i" and in1: "i \<le> n - 1" by (simp_all add: py_range_def)
  have "real_of_int x < real_of_int (start i) + lw"
  proof (cases "i = n - 1")
    case True
    from low [OF i0] True have "real_of_int (n - 1) * lw - 1 < real_of_int (start i)" by simp
    then have "real_of_int n * lw - 1 < real_of_int (start i) + lw" by (simp add: algebra_simps)
    moreover from assms have "real_of_int x \<le> real_of_int W - 1" by linarith
    ultimately show ?thesis using W by linarith
  next
    case False
    with in1 i0 have nr: "i + 1 \<in> set (py_range n)" by (simp add: py_range_def)
    have "i + 1 \<notin> S"
    proof
      assume "i + 1 \<in> S"
      with fin have "i + 1 \<le> Max S" by (rule Max_ge)
      then show False by (simp add: i_def)
    qed
    with nr have "x < start (i + 1)" by (simp add: S_def)
    then have "real_of_int x + 1 \<le> real_of_int (start (i + 1))" by linarith
    also have "\<dots> \<le> real_of_int (i + 1) * lw"
      using fl [of "i + 1"] i0 by simp
    finally have "real_of_int x \<le> real_of_int i * lw + lw - 1" by (simp add: algebra_simps)
    with low [OF i0] show ?thesis by linarith
  qed
  with st ir have
    "filter (\<lambda>i. real_of_int (start i) \<le> real_of_int x
                       \<and> real_of_int x < real_of_int (start i) + lw) (py_range n) \<noteq> []"
    by (auto simp: filter_empty_conv)
  then obtain j ls where
    "filter (\<lambda>i. real_of_int (start i) \<le> real_of_int x
                       \<and> real_of_int x < real_of_int (start i) + lw) (py_range n) = j # ls"
    by (auto simp: neq_Nil_conv)
  moreover from assms have "n \<noteq> 0" by simp
  ultimately show ?thesis
    by (simp add: owl_lanes_of_filter start_def lw_def)
qed

text \<open>
  When the lane count divides the frame width, the lane test of both files is the
  partition of the claim: a centre with \<open>0 \<le> x < W\<close> is in the one lane \<open>x div k\<close>,
  where \<open>k\<close> is the lane width.
\<close>

lemma filter_single:
  "distinct xs \<Longrightarrow> j \<in> set xs \<Longrightarrow> \<forall>i \<in> set xs. P i = (i = j) \<Longrightarrow> filter P xs = [j]"
proof (induction xs)
  case Nil
  then show ?case by simp
next
  case (Cons a xs)
  show ?case
  proof (cases "a = j")
    case True
    with Cons.prems have "\<forall>i \<in> set xs. \<not> P i" by auto
    then have "filter P xs = []" by (simp add: filter_empty_conv)
    with True Cons.prems show ?thesis by simp
  next
    case False
    with Cons show ?thesis by auto
  qed
qed

lemma lane_of_div:
  fixes k x i :: int
  assumes "0 < k"
  shows "(i * k \<le> x \<and> x < i * k + k) = (i = x div k)"
proof
  assume a: "i * k \<le> x \<and> x < i * k + k"
  have "x div k = i"
  proof (rule int_div_pos_eq)
    show "x = k * i + (x - i * k)" by (simp add: algebra_simps)
    from a show "0 \<le> x - i * k" by simp
    from a show "x - i * k < k" by simp
  qed
  then show "i = x div k" by simp
next
  assume "i = x div k"
  moreover have "x = k * (x div k) + x mod k" by simp
  moreover from assms have "0 \<le> x mod k" "x mod k < k" by simp_all
  ultimately show "i * k \<le> x \<and> x < i * k + k"
    by (metis add.commute add_le_cancel_left add_less_cancel_left le_add_same_cancel1
        mult.commute)
qed

lemma exact_lanes:
  assumes "0 < n" "0 < k" "W = n * k" "0 \<le> x" "x < W"
  shows "owl_lanes_of W n x = Inr [x div k]" and "gob_lanes_of W n x = Inr [x div k]"
proof -
  from assms have n0: "n \<noteq> 0" by simp
  from assms have lw: "real_of_int W / real_of_int n = real_of_int k" by simp
  have st: "py_int (real_of_int i * real_of_int k) = i * k" for i
    using py_int_between [of "i * k" "real_of_int i * real_of_int k" "i * k"] by simp
  have en: "py_int (real_of_int i * real_of_int k + real_of_int k) = i * k + k" for i
    using py_int_between [of "i * k + k" "real_of_int i * real_of_int k + real_of_int k" "i * k + k"]
    by simp
  from assms have d0: "0 \<le> x div k" by (simp add: pos_imp_zdiv_nonneg_iff)
  from lane_of_div [OF assms(2), of "x div k" x] have le: "x div k * k \<le> x" by simp
  have "x div k < n"
  proof (rule ccontr)
    assume "\<not> x div k < n"
    then have "n * k \<le> x div k * k"
      using assms(2) by (intro mult_right_mono) simp_all
    with le assms show False by simp
  qed
  with d0 have mem: "x div k \<in> set (py_range n)" by (simp add: py_range_def)
  have dist: "distinct (py_range n)" by (simp add: py_range_def)
  have "filter (\<lambda>i. real_of_int (i * k) \<le> real_of_int x
                     \<and> real_of_int x < real_of_int (i * k) + real_of_int k) (py_range n)
          = [x div k]"
  proof (rule filter_single [OF dist mem], rule ballI)
    fix i
    have "(real_of_int (i * k) \<le> real_of_int x
            \<and> real_of_int x < real_of_int (i * k) + real_of_int k)
          = (i * k \<le> x \<and> x < i * k + k)"
      by (metis of_int_add of_int_le_iff of_int_less_iff)
    then show "(real_of_int (i * k) \<le> real_of_int x
            \<and> real_of_int x < real_of_int (i * k) + real_of_int k) = (i = x div k)"
      using lane_of_div [OF assms(2)] by simp
  qed
  then show "owl_lanes_of W n x = Inr [x div k]"
    by (simp add: owl_lanes_of_filter [OF n0] lw st)
  have "filter (\<lambda>i. i * k \<le> x \<and> x < i * k + k) (py_range n) = [x div k]"
    by (rule filter_single [OF dist mem]) (simp add: lane_of_div [OF assms(2)])
  then show "gob_lanes_of W n x = Inr [x div k]"
    by (simp add: gob_lanes_of_filter [OF n0] lw st en)
qed

text \<open>
  Claim C1 says that for every frame width and lane count the lane test gives every
  centre with \<open>0 \<le> x < W\<close> exactly one lane, and a centre at \<open>x = W\<close> none. The
  second part holds (\<open>owl_no_lane_at_width\<close>, \<open>gob_no_lane_at_width\<close>), and so does the
  first when the lane count divides the width (\<open>exact_lanes\<close>). Otherwise it fails.
  With a frame 416 wide and 3 lanes the lane width is \<open>138.66...\<close> and the lane
  starts are truncated to 0, 138 and 277. In \<open>owl.py\<close> lane 0 ends at
  \<open>0 + 138.66...\<close> and lane 1 starts at 138, so a centre at \<open>x = 138\<close> is sent to
  relays 0 and 1. In \<open>greenonbrown.py\<close> the lane end is truncated as well, lane 1
  ends at \<open>int(138 + 138.66...) = 276\<close> and lane 2 starts at 277, so a centre at
  \<open>x = 276\<close> is sent to no nozzle.
\<close>

theorem lane_test_is_not_a_partition:
  "owl_lanes_of 416 3 138 = Inr [0, 1] \<and> gob_lanes_of 416 3 276 = Inr []"
  by (simp add: lane_eval)

text \<open>
  The centre loops skip a centre that is not beyond the line without reading the clock,
  without a job and without an error: they behave as on the list of the centres beyond
  the line.
\<close>

lemma centre_loop_filter:
  "centre_loop s d dur clock k centres received =
   centre_loop s d dur clock k (filter (\<lambda>c. yAct s < snd c) centres) received"
  by (induction centres arbitrary: k received) (auto simp: Let_def split: sum.splits)

lemma weedCentres_loop_filter:
  "weedCentres_loop y_act n lc lw d dur clock k centres received =
   weedCentres_loop y_act n lc lw d dur clock k (filter (\<lambda>c. y_act < snd c) centres) received"
  by (induction centres arbitrary: k received) (auto simp: Let_def split: sum.splits)

text \<open>
  Claim C4: a spray job is submitted for a centre only if its y-coordinate is greater
  than the activation line. In both files the loop over the centres gives the same
  jobs (and the same error, if any) as the loop over the centres beyond the line alone;
  when every centre is at or below the line, the loop returns normally and the jobs
  received are those received before.
\<close>

theorem activation_line_gate:
  "centre_loop s d dur clock k centres received =
     centre_loop s d dur clock k (filter (\<lambda>c. yAct s < snd c) centres) received
   \<and> weedCentres_loop y_act n lc lw d dur clock k centres received =
     weedCentres_loop y_act n lc lw d dur clock k (filter (\<lambda>c. y_act < snd c) centres) received
   \<and> ((\<forall>c \<in> set centres. snd c \<le> yAct s) \<longrightarrow>
        centre_loop s d dur clock k centres received = Inr received)
   \<and> ((\<forall>c \<in> set centres. snd c \<le> y_act) \<longrightarrow>
        weedCentres_loop y_act n lc lw d dur clock k centres received = Inr received)"
proof -
  have a: "centre_loop s d dur clock k centres received =
     centre_loop s d dur clock k (filter (\<lambda>c. yAct s < snd c) centres) received"
    by (rule centre_loop_filter)
  have b: "weedCentres_loop y_act n lc lw d dur clock k centres received =
     weedCentres_loop y_act n lc lw d dur clock k (filter (\<lambda>c. y_act < snd c) centres) received"
    by (rule weedCentres_loop_filter)
  have c: "centre_loop s d dur clock k centres received = Inr received"
    if "\<forall>c \<in> set centres. snd c \<le> yAct s"
  proof -
    from that have "filter (\<lambda>c. yAct s < snd c) centres = []"
      by (auto simp: filter_empty_conv)
    with a show ?thesis by simp
  qed
  have e: "weedCentres_loop y_act n lc lw d dur clock k centres received = Inr received"
    if "\<forall>c \<in> set centres. snd c \<le> y_act"
  proof -
    from that have "filter (\<lambda>c. y_act < snd c) centres = []"
      by (auto simp: filter_empty_conv)
    with b show ?thesis by simp
  qed
  from a b c e show ?thesis by blast
qed

theorem activation_line_gate_witness:
  "snd (500 :: int, 3 :: int) \<le> yAct \<lparr> relay_num = 4, yAct = 4, lane_width = 150,
                                          lane_coords = Map.empty \<rparr>
   \<and> centre_loop \<lparr> relay_num = 4, yAct = 4, lane_width = 150, lane_coords = Map.empty \<rparr>
        0 (15 / 100) (\<lambda>_. 0) 0 [(500, 3)] [] = Inr []
   \<and> snd (500 :: int, 20 :: int) \<le> 80
   \<and> weedCentres_loop 80 4 Map.empty 150 0 (15 / 100) (\<lambda>_. 0) 0 [(500, 20)] [] = Inr []"
  using activation_line_gate
    [of "\<lparr> relay_num = 4, yAct = 4, lane_width = 150, lane_coords = Map.empty \<rparr>"
        0 "15 / 100" "\<lambda>_. 0" 0 "[(500, 3)]" "[]" 80 4 Map.empty 150]
    activation_line_gate
    [of "\<lparr> relay_num = 4, yAct = 4, lane_width = 150, lane_coords = Map.empty \<rparr>"
        0 "15 / 100" "\<lambda>_. 0" 0 "[(500, 20)]" "[]" 80 4 Map.empty 150]
  by simp

section \<open>Properties: leaving the main loop\<close>

lemma stop_all_off: "\<forall>b \<in> set (relays (stop r)). \<not> b"
  by (simp add: stop_def all_off_def beep_def Let_def)

lemma hoot_end_owl_all_off: "\<forall>b \<in> set (relays (hoot_end_owl e r)). \<not> b"
  by (cases e) (simp_all add: stop_def all_off_def beep_def log_line_def Let_def)

lemma hoot_end_gob_all_off:
  "(\<forall>msg. e \<noteq> Exception msg) \<Longrightarrow> \<forall>b \<in> set (relays (hoot_end_gob e r)). \<not> b"
  by (cases e) (simp_all add: stop_def all_off_def beep_def log_line_def Let_def)

text \<open>
  Claim C5 says that on every fatal path all relays are forced off before the process
  exits. In \<open>owl.py\<close> every way out of the loop goes through \<open>stop\<close>, which calls
  \<open>all_off\<close>. In \<open>greenonbrown.py\<close> the handler of \<open>Exception\<close> beeps and logs and does
  not call \<open>stop\<close>: with relay 0 energised when the exception is raised, relay 0 is
  still energised when \<open>hoot\<close> returns.
\<close>

theorem critical_error_leaves_relay_on:
  "relays (hoot_end_gob (Exception ''cv2.error'') sample_rig) = [True, False, False, False]
   \<and> sys_exit (hoot_end_gob (Exception ''cv2.error'') sample_rig) = False
   \<and> relays (hoot_end_owl (Exception ''cv2.error'') sample_rig) = [False, False, False, False]"
  by (simp add: sample_rig_def stop_def all_off_def beep_def log_line_def Let_def)

section \<open>Properties: the vegetation index and the thresholds\<close>

text \<open>
  Claim C6 says that the \<open>'exhsv'\<close> variant returns an already-binary mask, so that
  adaptive thresholding is skipped for it. For \<open>'exhsv'\<close> the flag \<open>threshedAlready\<close>
  keeps its initial value \<open>False\<close>, and the output is clamped, thresholded adaptively
  and closed once.
\<close>

theorem exhsv_is_thresholded:
  "fst (snd (select_index ''exhsv'' sample_range sample_frame)) = False
   \<and> fst (threshold_stage (sample_params ''exhsv'') sample_frame) =
       MorphClose 1 (AdaptiveThreshold (Uint8Abs (ZeroAbove 200 (KeepAbove 25
         (ExgStandardisedHue sample_frame sample_range)))))"
  by (simp add: select_index_def threshold_stage_def run_thresholds_def sample_params_def)

text \<open>
  Claim C6, amended: the flag is set for the selector \<open>'hsv'\<close> and for no other. The
  HSV mask is closed with five iterations and not thresholded; the output of every
  other selector, \<open>'exhsv'\<close> and the unknown ones included, is clamped, thresholded
  adaptively and closed once.
\<close>

theorem only_hsv_is_already_binary:
  "fst (snd (select_index a r img)) = (a = ''hsv'')
   \<and> fst (threshold_stage p img) =
       (if algorithm p = ''hsv'' then MorphClose 5 (HsvMask img (hsv_thresholds p))
        else MorphClose 1 (AdaptiveThreshold (Uint8Abs (ZeroAbove (exgMax p) (KeepAbove (exgMin p)
               (fst (select_index (algorithm p) (hsv_thresholds p) img)))))))"
  by (simp add: select_index_def threshold_stage_def run_thresholds_def hsv_def)

text \<open>
  Claim C8: for every selector that is none of the seven known names, the index is ExG
  and the warning is printed; \<open>green_on_brown\<close> returns what it returns for \<open>'exg'\<close>.
  The selection has no failing branch.
\<close>

theorem unknown_algorithm_defaults_to_exg:
  assumes "a \<notin> {''exg'', ''exgr'', ''maxg'', ''nexg'', ''exhsv'', ''hsv'', ''gndvi''}"
  shows "select_index a r img = (Exg img, False, [''[WARNING] DEFAULTED TO EXG''])
     \<and> fst (green_on_brown cv (p\<lparr>algorithm := a\<rparr>) img) =
         fst (green_on_brown cv (p\<lparr>algorithm := ''exg''\<rparr>) img)
     \<and> snd (green_on_brown cv (p\<lparr>algorithm := a\<rparr>) img) = [''[WARNING] DEFAULTED TO EXG'']"
  using assms
  by (simp add: select_index_def threshold_stage_def green_on_brown_def Let_def split: prod.splits)

theorem unknown_algorithm_witness:
  "''ndvi'' \<notin> {''exg'', ''exgr'', ''maxg'', ''nexg'', ''exhsv'', ''hsv'', ''gndvi''}
   \<and> select_index ''ndvi'' sample_range sample_frame =
       (Exg sample_frame, False, [''[WARNING] DEFAULTED TO EXG''])"
  using unknown_algorithm_defaults_to_exg [of "''ndvi''" sample_range sample_frame]
  by simp

section \<open>Properties: contours, boxes and centres\<close>

lemma py_int_half_span:
  "min x (x + w) \<le> py_int (real_of_int x + real_of_int w / 2)
   \<and> py_int (real_of_int x + real_of_int w / 2) \<le> max x (x + w)"
proof (cases "0 \<le> w")
  case True
  then have "real_of_int x \<le> real_of_int x + real_of_int w / 2"
    and "real_of_int x + real_of_int w / 2 \<le> real_of_int (x + w)" by simp_all
  from py_int_between [OF this] True show ?thesis by simp
next
  case False
  then have "real_of_int (x + w) \<le> real_of_int x + real_of_int w / 2"
    and "real_of_int x + real_of_int w / 2 \<le> real_of_int x" by simp_all
  from py_int_between [OF this] False show ?thesis by simp
qed

lemma centre_in_box: "in_box (centre_of_box b) b"
  by (cases b) (simp add: py_int_half_span)

text \<open>For a box of non-negative width and height, \<open>in_box\<close> is the usual test.\<close>

lemma in_box_nonneg:
  "0 \<le> w \<Longrightarrow> 0 \<le> h \<Longrightarrow>
   in_box (cx, cy) (x, y, w, h) = (x \<le> cx \<and> cx \<le> x + w \<and> y \<le> cy \<and> cy \<le> y + h)"
  by simp

text \<open>
  The contour loop appends, in the order of the contours, the bounding rectangle and the
  centre of each contour whose area is greater than \<open>minArea\<close>, and nothing for the
  others.
\<close>

lemma contour_loop_result:
  "\<exists>img'. contour_loop cv m cs (bs, ws, img) =
     (bs @ map (boundingRect cv) (filter (\<lambda>c. contourArea cv c > real_of_int m) cs),
      ws @ map (\<lambda>c. centre_of_box (boundingRect cv c))
             (filter (\<lambda>c. contourArea cv c > real_of_int m) cs),
      img')"
proof (induction cs arbitrary: bs ws img)
  case Nil
  then show ?case by simp
next
  case (Cons c cs)
  show ?case
  proof (cases "contourArea cv c > real_of_int m")
    case True
    obtain x y w h where r: "boundingRect cv c = (x, y, w, h)"
      by (cases "boundingRect cv c")
    from Cons [of "bs @ [(x, y, w, h)]" "ws @ [centre_of_box (x, y, w, h)]"
        "Rectangle img (x, y) (x + w, y + h)"]
    show ?thesis using True r by (simp add: Let_def)
  next
    case False
    with Cons [of bs ws img] show ?thesis by simp
  qed
qed

lemma green_on_brown_result:
  assumes "green_on_brown cv p img = ((cnts, boxes, weedCenters, out), printed)"
  shows "cnts = findContours cv (fst (threshold_stage p img))"
    and "boxes = map (boundingRect cv)
           (filter (\<lambda>c. contourArea cv c > real_of_int (minArea p)) cnts)"
    and "weedCenters = map centre_of_box boxes"
proof -
  obtain thresholdOut pr where t: "threshold_stage p img = (thresholdOut, pr)"
    by (cases "threshold_stage p img")
  from contour_loop_result [of cv "minArea p" "findContours cv thresholdOut" "[]" "[]" img]
  obtain img' where
    "contour_loop cv (minArea p) (findContours cv thresholdOut) ([], [], img) =
     (map (boundingRect cv)
        (filter (\<lambda>c. contourArea cv c > real_of_int (minArea p)) (findContours cv thresholdOut)),
      map (\<lambda>c. centre_of_box (boundingRect cv c))
        (filter (\<lambda>c. contourArea cv c > real_of_int (minArea p)) (findContours cv thresholdOut)),
      img')"
    by auto
  with assms t show "cnts = findContours cv (fst (threshold_stage p img))"
    and "boxes = map (boundingRect cv)
           (filter (\<lambda>c. contourArea cv c > real_of_int (minArea p)) cnts)"
    and "weedCenters = map centre_of_box boxes"
    by (auto simp: green_on_brown_def Let_def)
qed

lemma sample_green_on_brown:
  "green_on_brown sample_cv (sample_params ''exg'') sample_frame =
     (([small_square, large_square], [(100, 50, 40, 40)], [(120, 70)],
       Rectangle sample_frame (100, 50) (140, 90)), [])"
  by (simp add: green_on_brown_def threshold_stage_def select_index_def run_thresholds_def
      sample_cv_def sample_params_def small_square_def large_square_def polygon_area_def
      bounding_box_def py_int_def Let_def)

text \<open>
  Claim C3 says that the segmentation step never returns a contour with area below
  \<open>min_area\<close>. The first component of the tuple returned is the list \<open>cnts\<close> as
  \<open>findContours\<close> gave it: with a minimum area of 10, the square of area 4 is among
  the contours returned.
\<close>

theorem returned_contours_are_unfiltered:
  "small_square \<in> set (fst (fst (green_on_brown sample_cv (sample_params ''exg'') sample_frame)))
   \<and> contourArea sample_cv small_square < real_of_int (minArea (sample_params ''exg''))"
  by (simp add: sample_green_on_brown)
    (simp add: sample_cv_def sample_params_def small_square_def polygon_area_def)

text \<open>
  Claim C3, amended: the contours returned are all the external contours found. The
  boxes returned are the bounding rectangles of exactly those contours whose area is
  greater than \<open>minArea\<close>, in the order of the contours, and the centres returned are
  the centres of these boxes: a contour whose area is \<open>minArea\<close> or less contributes
  neither a box nor a centre.
\<close>

theorem boxes_and_centres_need_area:
  assumes "green_on_brown cv p img = ((cnts, boxes, weedCenters, out), printed)"
  shows "cnts = findContours cv (fst (threshold_stage p img))
     \<and> boxes = map (boundingRect cv)
         (filter (\<lambda>c. contourArea cv c > real_of_int (minArea p)) cnts)
     \<and> weedCenters = map centre_of_box boxes"
  using green_on_brown_result [OF assms] by simp

theorem boxes_and_centres_witness:
  "green_on_brown sample_cv (sample_params ''exg'') sample_frame =
     (([small_square, large_square], [(100, 50, 40, 40)], [(120, 70)],
       Rectangle sample_frame (100, 50) (140, 90)), [])
   \<and> ([small_square, large_square] =
        findContours sample_cv (fst (threshold_stage (sample_params ''exg'') sample_frame))
   \<and> [(100, 50, 40, 40)] = map (boundingRect sample_cv)
        (filter (\<lambda>c. contourArea sample_cv c > real_of_int (minArea (sample_params ''exg'')))
           [small_square, large_square])
   \<and> [(120, 70)] = map centre_of_box [(100, 50, 40, 40)])"
  by (rule conjI [OF sample_green_on_brown boxes_and_centres_need_area [OF sample_green_on_brown]])

text \<open>
  The detection loop appends a box and its centre together, or nothing.
\<close>

lemma detection_loop_result:
  "detection_loop ls boxes classes scores conf fid h w idx (bs, ws, img) = Inr (bs', ws', img')
   \<Longrightarrow> \<exists>new. bs' = bs @ new \<and> ws' = ws @ map centre_of_box new"
proof (induction idx arbitrary: bs ws img)
  case Nil
  then show ?case by simp
next
  case (Cons i idx)
  show ?case
  proof (cases "scalar_at scores i")
    case (Inl e)
    with Cons.prems show ?thesis by simp
  next
    case (Inr score)
    note sc = this
    show ?thesis
    proof (cases "score \<ge> conf")
      case False
      with Cons.prems sc have
        "detection_loop ls boxes classes scores conf fid h w idx (bs, ws, img) = Inr (bs', ws', img')"
        by simp
      then show ?thesis by (rule Cons.IH)
    next
      case True
      note ge = this
      show ?thesis
      proof (cases "scalar_at classes i")
        case (Inl e)
        with Cons.prems sc ge show ?thesis by simp
      next
        case (Inr cls)
        note cl = this
        show ?thesis
        proof (cases "cls = real_of_int fid")
          case False
          with Cons.prems sc ge cl have
            "detection_loop ls boxes classes scores conf fid h w idx (bs, ws, img) =
               Inr (bs', ws', img')"
            by simp
          then show ?thesis by (rule Cons.IH)
        next
          case True
          note eq = this
          show ?thesis
          proof (cases "row_at boxes i")
            case (Inl e)
            with Cons.prems sc ge cl eq show ?thesis by simp
          next
            case (Inr row)
            obtain ymin xmin ymax xmax where row: "row = (ymin, xmin, ymax, xmax)"
              by (cases row)
            define b where
              "b = (py_int (xmin * real_of_int w), py_int (ymin * real_of_int h),
                    py_int (xmax * real_of_int w) - py_int (xmin * real_of_int w),
                    py_int (ymax * real_of_int h) - py_int (ymin * real_of_int h))"
            from Cons.prems sc ge cl eq Inr row obtain img2 where
              "detection_loop ls boxes classes scores conf fid h w idx
                 (bs @ [b], ws @ [centre_of_box b], img2) = Inr (bs', ws', img')"
              by (simp add: Let_def b_def)
            from Cons.IH [OF this] obtain new where
              "bs' = (bs @ [b]) @ new" "ws' = (ws @ [centre_of_box b]) @ map centre_of_box new"
              by blast
            then have "bs' = bs @ (b # new) \<and> ws' = ws @ map centre_of_box (b # new)"
              by simp
            then show ?thesis by blast
          qed
        qed
      qed
    qed
  qed
qed

lemma inference_result:
  assumes "inference self img conf fid = Inr (c, boxes, centres, out)"
  shows "c = None \<and> centres = map centre_of_box boxes"
proof (cases "vstreams self")
  case None
  with assms show ?thesis by (simp add: inference_def Let_def split: prod.splits)
next
  case (Some device)
  obtain h w where sh: "shape img = (h, w)" by (cases "shape img")
  define outs where "outs = read_outputs (output_names self) (device (preprocess self img))"
  show ?thesis
  proof (cases "\<exists>b cl s. outs ''detection_boxes'' = Some b \<and> outs ''detection_classes'' = Some cl
                  \<and> outs ''detection_scores'' = Some s")
    case True
    then obtain b cl s where o: "outs ''detection_boxes'' = Some b"
      "outs ''detection_classes'' = Some cl" "outs ''detection_scores'' = Some s"
      by blast
    from assms Some sh o obtain out' where
      "detection_loop (labels self) b cl s conf fid h w [0..<shape0 b] ([], [], img)
         = Inr (boxes, centres, out')" and "c = None"
      by (auto simp: inference_def Let_def outs_def split: sum.splits)
    with detection_loop_result
      [of "labels self" b cl s conf fid h w "[0..<shape0 b]" "[]" "[]" img boxes centres out']
    show ?thesis by simp
  next
    case False
    with assms Some sh show ?thesis
      by (auto simp: inference_def Let_def outs_def split: option.splits sum.splits)
  qed
qed

lemma sample_inference:
  "inference sample_detector sample_frame (1 / 2) 63 =
     Inr (None, [(41, 32, 167, 128)], [(124, 96)],
          PutText (Rectangle sample_frame (41, 32) (208, 160)) (90, Inr 63) (41, 62))"
  by (simp add: inference_def sample_detector_def sample_frame_def preprocess_def
      read_outputs_def py_int_def label_of_def Let_def)

text \<open>
  Claim C9: in every result of either detector the centres and the boxes have the same
  length, and each centre is, at its index, the centre \<open>(x + w / 2, y + h / 2)\<close>
  (truncated) of the box at that index and lies within that box.
\<close>

theorem centres_aligned_and_inside:
  "(green_on_brown cv p img = ((cnts, boxes, weedCenters, out), printed) \<longrightarrow>
      length weedCenters = length boxes
      \<and> list_all2 (\<lambda>c b. c = centre_of_box b \<and> in_box c b) weedCenters boxes)
   \<and> (inference self img' conf fid = Inr (none, self_boxes, weed_centers, out') \<longrightarrow>
      length weed_centers = length self_boxes
      \<and> list_all2 (\<lambda>c b. c = centre_of_box b \<and> in_box c b) weed_centers self_boxes)"
proof -
  have al: "list_all2 (\<lambda>c b. c = centre_of_box b \<and> in_box c b) (map centre_of_box bs) bs" for bs
    by (simp add: list_all2_conv_all_nth centre_in_box)
  show ?thesis
    using green_on_brown_result(3) [of cv p img cnts boxes weedCenters out printed]
      inference_result [of self img' conf fid none self_boxes weed_centers out'] al
    by auto
qed

theorem centres_aligned_witness:
  "green_on_brown sample_cv (sample_params ''exg'') sample_frame =
     (([small_square, large_square], [(100, 50, 40, 40)], [(120, 70)],
       Rectangle sample_frame (100, 50) (140, 90)), [])
   \<and> inference sample_detector sample_frame (1 / 2) 63 =
     Inr (None, [(41, 32, 167, 128)], [(124, 96)],
          PutText (Rectangle sample_frame (41, 32) (208, 160)) (90, Inr 63) (41, 62))
   \<and> list_all2 (\<lambda>c b. c = centre_of_box b \<and> in_box c b) [(120, 70)] [(100, 50, 40, 40)]
   \<and> list_all2 (\<lambda>c b. c = centre_of_box b \<and> in_box c b) [(124, 96)] [(41, 32, 167, 128)]"
  using centres_aligned_and_inside
    [of sample_cv "sample_params ''exg''" sample_frame "[small_square, large_square]"
        "[(100, 50, 40, 40)]" "[(120, 70)]" "Rectangle sample_frame (100, 50) (140, 90)" "[]"
        sample_detector sample_frame "1 / 2" 63 None "[(41, 32, 167, 128)]" "[(124, 96)]"
        "PutText (Rectangle sample_frame (41, 32) (208, 160)) (90, Inr 63) (41, 62)"]
    sample_green_on_brown sample_inference
  by blast

text \<open>\<open>inference\<close> returns when the streams are bound and the tensors have their shapes.\<close>

lemma detection_loop_returns:
  "\<forall>i \<in> set idx. i < length m \<and> i < length cs \<and> i < length ss \<Longrightarrow>
   \<exists>r. detection_loop ls (Rows m) (Scalars cs) (Scalars ss) conf fid h w idx acc = Inr r"
proof (induction idx arbitrary: acc)
  case Nil
  show ?case by (cases acc) simp
next
  case (Cons i idx)
  obtain bs ws img where acc: "acc = (bs, ws, img)" by (cases acc)
  from Cons.prems have i: "i < length m" "i < length cs" "i < length ss"
    and rest: "\<forall>i \<in> set idx. i < length m \<and> i < length cs \<and> i < length ss"
    by simp_all
  obtain ymin xmin ymax xmax where row: "m ! i = (ymin, xmin, ymax, xmax)"
    by (cases "m ! i")
  from Cons.IH [OF rest] show ?case
    unfolding acc using i row by (simp add: Let_def)
qed

text \<open>
  Claim C10: every tuple that \<open>inference\<close> returns has \<open>None\<close> in the contours position.
  It returns \<open>(None, [], [], image)\<close> when one of the three output tensors is missing,
  and a tuple with \<open>None\<close> first when the three tensors are there (rows of boxes, and a
  class and a score for each row). These are all its returns; with the stream
  attributes unbound the call raises \<open>AttributeError\<close> and returns nothing.
\<close>

theorem inference_contours_position_is_None:
  "(inference self img conf fid = Inr r \<longrightarrow> fst r = None)
   \<and> (vstreams self = Some device
        \<and> outs = read_outputs (output_names self) (device (preprocess self img))
        \<and> (outs ''detection_boxes'' = None \<or> outs ''detection_classes'' = None
             \<or> outs ''detection_scores'' = None)
      \<longrightarrow> inference self img conf fid = Inr (None, [], [], img))
   \<and> (vstreams self = Some device
        \<and> outs = read_outputs (output_names self) (device (preprocess self img))
        \<and> outs ''detection_boxes'' = Some (Rows m)
        \<and> outs ''detection_classes'' = Some (Scalars cs)
        \<and> outs ''detection_scores'' = Some (Scalars ss)
        \<and> length m \<le> length cs \<and> length m \<le> length ss
      \<longrightarrow> (\<exists>bs ws out. inference self img conf fid = Inr (None, bs, ws, out)))
   \<and> (vstreams self = None \<longrightarrow> inference self img conf fid = Inl AttributeError)"
proof -
  have a: "fst r = None" if "inference self img conf fid = Inr r"
  proof -
    obtain c bs ws out where "r = (c, bs, ws, out)" by (cases r)
    with that inference_result [of self img conf fid c bs ws out] show ?thesis by simp
  qed
  have b: "inference self img conf fid = Inr (None, [], [], img)"
    if "vstreams self = Some device"
      "outs = read_outputs (output_names self) (device (preprocess self img))"
      "outs ''detection_boxes'' = None \<or> outs ''detection_classes'' = None
             \<or> outs ''detection_scores'' = None"
    using that by (auto simp: inference_def Let_def split: prod.splits option.splits)
  have c: "\<exists>bs ws out. inference self img conf fid = Inr (None, bs, ws, out)"
    if v: "vstreams self = Some device"
      and o: "outs = read_outputs (output_names self) (device (preprocess self img))"
      "outs ''detection_boxes'' = Some (Rows m)"
      "outs ''detection_classes'' = Some (Scalars cs)"
      "outs ''detection_scores'' = Some (Scalars ss)"
      and l: "length m \<le> length cs" "length m \<le> length ss"
  proof -
    obtain h w where sh: "shape img = (h, w)" by (cases "shape img")
    from l have "\<forall>i \<in> set [0..<length m]. i < length m \<and> i < length cs \<and> i < length ss"
      by auto
    from detection_loop_returns [OF this, of "labels self" conf fid h w "([], [], img)"]
    obtain bs ws out where
      "detection_loop (labels self) (Rows m) (Scalars cs) (Scalars ss) conf fid h w
         [0..<length m] ([], [], img) = Inr (bs, ws, out)"
      by (metis prod_cases3)
    with v o sh have "inference self img conf fid = Inr (None, bs, ws, out)"
      by (simp add: inference_def Let_def)
    then show ?thesis by blast
  qed
  have d: "inference self img conf fid = Inl AttributeError" if "vstreams self = None"
    using that by (simp add: inference_def Let_def split: prod.splits)
  from a b c d show ?thesis by blast
qed

theorem inference_contours_witness:
  "inference sample_detector sample_frame (1 / 2) 63 =
     Inr (None, [(41, 32, 167, 128)], [(124, 96)],
          PutText (Rectangle sample_frame (41, 32) (208, 160)) (90, Inr 63) (41, 62))
   \<and> inference (sample_detector\<lparr>output_names := [''boxes'']\<rparr>) sample_frame (1 / 2) 63 =
       Inr (None, [], [], sample_frame)
   \<and> inference (sample_detector\<lparr>vstreams := None\<rparr>) sample_frame (1 / 2) 63 = Inl AttributeError"
  using inference_contours_position_is_None
    [of sample_detector sample_frame "1 / 2" 63
        "(None, [(41, 32, 167, 128)], [(124, 96)],
          PutText (Rectangle sample_frame (41, 32) (208, 160)) (90, Inr 63) (41, 62))"]
    inference_contours_position_is_None
    [of "sample_detector\<lparr>output_names := [''boxes'']\<rparr>" sample_frame "1 / 2" 63 _
        "\<lambda>_. [Rows [(1 / 10, 1 / 10, 1 / 2, 1 / 2)], Scalars [63], Scalars [9 / 10]]"
        "read_outputs [''boxes'']
           [Rows [(1 / 10, 1 / 10, 1 / 2, 1 / 2)], Scalars [63], Scalars [9 / 10]]"]
    inference_contours_position_is_None
    [of "sample_detector\<lparr>vstreams := None\<rparr>" sample_frame "1 / 2" 63]
    sample_inference
  by (simp add: sample_detector_def read_outputs_def)

section \<open>Properties: the frame buffer\<close>

text \<open>When \<open>inference\<close> returns, the array it returns is the array as the call left it.\<close>

lemma detection_loop_buffer_agrees:
  "detection_loop ls boxes classes scores conf fid h w idx (bs, ws, img) = Inr (bs', ws', img')
   \<Longrightarrow> detection_loop_buffer ls boxes classes scores conf fid h w idx img = img'"
  by (induction idx arbitrary: bs ws img)
    (auto simp: Let_def split: sum.splits if_splits prod.splits)

lemma inference_buffer_agrees:
  assumes "inference self img conf fid = Inr (c, boxes, centres, out)"
  shows "inference_buffer self img conf fid = out"
proof (cases "vstreams self")
  case None
  with assms show ?thesis by (simp add: inference_def Let_def split: prod.splits)
next
  case (Some device)
  obtain h w where sh: "shape img = (h, w)" by (cases "shape img")
  define outs where "outs = read_outputs (output_names self) (device (preprocess self img))"
  show ?thesis
  proof (cases "\<exists>b cl s. outs ''detection_boxes'' = Some b \<and> outs ''detection_classes'' = Some cl
                  \<and> outs ''detection_scores'' = Some s")
    case True
    then obtain b cl s where o: "outs ''detection_boxes'' = Some b"
      "outs ''detection_classes'' = Some cl" "outs ''detection_scores'' = Some s"
      by blast
    from assms Some sh o have
      "detection_loop (labels self) b cl s conf fid h w [0..<shape0 b] ([], [], img)
         = Inr (boxes, centres, out)"
      by (auto simp: inference_def Let_def outs_def split: sum.splits)
    from detection_loop_buffer_agrees [OF this] Some sh o show ?thesis
      by (simp add: inference_buffer_def Let_def outs_def)
  next
    case False
    with assms Some sh show ?thesis
      by (auto simp: inference_def inference_buffer_def Let_def outs_def
          split: option.splits sum.splits)
  qed
qed

text \<open>
  \<open>owl.py\<close> hands the detector the frame itself, not a copy. Were the streams bound, a
  detection that is kept would be drawn on the frame.
\<close>

lemma hoot_detect_gog_streams_bound:
  "hoot_detect_gog sample_detector (1 / 2) [sample_frame] 0 =
     (Inr (None, [(41, 32, 167, 128)], [(124, 96)], 0),
      [PutText (Rectangle sample_frame (41, 32) (208, 160)) (90, Inr 63) (41, 62)])"
  by (simp add: hoot_detect_gog_def inference_at_def sample_inference
      inference_buffer_agrees [OF sample_inference])




section \<open>Properties: the actuation scheduler\<close>

lemma run_append: "run (es @ es') t = run es' (run es t)"
  by (induction es t rule: run.induct) simp_all

text \<open>Looking at a lane twice is looking at it at the later time.\<close>

lemma advance_advance: "t1 \<le> t2 \<Longrightarrow> advance t2 (advance t1 x) = advance t2 x"
  by (auto simp: advance_def fire_activation_def fire_deactivation_def due_def
      split: option.splits)

text \<open>
  However often and whenever a lane is looked at up to a time, at that time it is in
  the state that the wall clock alone determines.
\<close>

lemma advance_run_looks:
  "sorted ts \<Longrightarrow> \<forall>t \<in> set ts. t \<le> now \<Longrightarrow> advance now (run (looks ts) x) = advance now x"
proof (induction ts arbitrary: x)
  case Nil
  then show ?case by (simp add: looks_def)
next
  case (Cons t ts)
  from Cons.prems have s: "sorted ts" and b: "\<forall>u \<in> set ts. u \<le> now" and t: "t \<le> now"
    by simp_all
  have "advance now (run (looks (t # ts)) x) = advance now (run (looks ts) (advance t x))"
    by (simp add: looks_def)
  also have "\<dots> = advance now (advance t x)"
    using Cons.IH [OF s b] by simp
  also have "\<dots> = advance now x"
    using t by (rule advance_advance)
  finally show ?case .
qed

lemma submit_busy:
  assumes "state t \<noteq> Idle"
  shows "submit now j t =
           t\<lparr> deactivate_at :=
                Some (later_deadline (deactivate_at t) (now + job_delay j + job_duration j)) \<rparr>"
  using assms by (cases "state t") (simp_all add: submit_def)

lemma later_deadline_armed: "later_deadline (Some d) new = max d new"
  by (simp add: later_deadline_def)

text \<open>The lane of the example after the first job, and after the second.\<close>

lemma first_job:
  "submit 0 (sample_job 0) (advance 0 (idle_lane 2)) =
     \<lparr> lane = 2, state = Pending, activate_at = Some (1 / 10), deactivate_at = Some (3 / 10),
       relay_level = False, off_transitions = 0 \<rparr>"
  by (simp add: submit_def advance_def fire_activation_def fire_deactivation_def due_def
      idle_lane_def sample_job_def)

lemma second_job:
  "submit (3 / 20) (sample_job (3 / 20))
     (advance (3 / 20)
        \<lparr> lane = 2, state = Pending, activate_at = Some (1 / 10), deactivate_at = Some (3 / 10),
          relay_level = False, off_transitions = 0 \<rparr>) =
     \<lparr> lane = 2, state = Active, activate_at = Some (1 / 10), deactivate_at = Some (9 / 20),
       relay_level = True, off_transitions = 0 \<rparr>"
  by (simp add: submit_def advance_def fire_activation_def fire_deactivation_def due_def
      later_deadline_def sample_job_def)

lemma before_second_job:
  assumes "sorted ts" "\<forall>t \<in> set ts. t \<le> now"
  shows "advance now (run ((0, Job (sample_job 0)) # looks ts) (idle_lane 2)) =
     advance now \<lparr> lane = 2, state = Pending, activate_at = Some (1 / 10),
                   deactivate_at = Some (3 / 10), relay_level = False, off_transitions = 0 \<rparr>"
  using advance_run_looks [OF assms] by (simp add: first_job)

lemma after_second_job:
  assumes "sorted ts1" "\<forall>t \<in> set ts1. t \<le> 3 / 20" "sorted ts2" "\<forall>t \<in> set ts2. t \<le> now"
  shows "advance now (run ((0, Job (sample_job 0)) # looks ts1
                           @ (3 / 20, Job (sample_job (3 / 20))) # looks ts2) (idle_lane 2)) =
     advance now \<lparr> lane = 2, state = Active, activate_at = Some (1 / 10),
                   deactivate_at = Some (9 / 20), relay_level = True, off_transitions = 0 \<rparr>"
proof -
  have "advance (3 / 20) (run ((0, Job (sample_job 0)) # looks ts1) (idle_lane 2)) =
        advance (3 / 20) \<lparr> lane = 2, state = Pending, activate_at = Some (1 / 10),
                   deactivate_at = Some (3 / 10), relay_level = False, off_transitions = 0 \<rparr>"
    using assms(1,2) by (rule before_second_job)
  then have "run ((0, Job (sample_job 0)) # looks ts1
                   @ (3 / 20, Job (sample_job (3 / 20))) # looks ts2) (idle_lane 2) =
     run (looks ts2) \<lparr> lane = 2, state = Active, activate_at = Some (1 / 10),
                   deactivate_at = Some (9 / 20), relay_level = True, off_transitions = 0 \<rparr>"
    using run_append [of "(0, Job (sample_job 0)) # looks ts1"
        "(3 / 20, Job (sample_job (3 / 20))) # looks ts2" "idle_lane 2"]
    by (simp add: second_job)
  then show ?thesis
    using advance_run_looks [OF assms(3,4)] by simp
qed

text \<open>
  Looking at a lane changes nothing that a later look or arrival would not change: the
  looks can be left out of a history.
\<close>

lemma run_after_look:
  assumes "now \<le> \<tau>" "\<forall>t \<in> set (map fst rest). now \<le> t"
  shows "advance \<tau> (run rest (advance now L)) = advance \<tau> (run rest L)"
proof (cases rest)
  case Nil
  with assms show ?thesis by (simp add: advance_advance)
next
  case (Cons ev r)
  obtain t e where ev: "ev = (t, e)" by (cases ev)
  with Cons assms have "now \<le> t" by simp
  then have "advance t (advance now L) = advance t L" by (rule advance_advance)
  with Cons ev show ?thesis by (cases e) simp_all
qed

lemma looks_do_not_matter:
  assumes "sorted (map fst es)" "\<forall>t \<in> set (map fst es). t \<le> \<tau>"
  shows "advance \<tau> (run es L) = advance \<tau> (run (filter (\<lambda>ev. snd ev \<noteq> Look) es) L)"
  using assms
proof (induction es arbitrary: L)
  case Nil
  then show ?case by simp
next
  case (Cons ev es)
  obtain now e where ev: "ev = (now, e)" by (cases ev)
  from Cons.prems ev have s: "sorted (map fst es)" and b: "\<forall>t \<in> set (map fst es). t \<le> \<tau>"
    and n: "now \<le> \<tau>" and l: "\<forall>t \<in> set (map fst es). now \<le> t"
    by auto
  show ?case
  proof (cases e)
    case (Job j)
    with ev Cons.IH [OF s b, of "submit now j (advance now L)"] show ?thesis by simp
  next
    case Look
    have "advance \<tau> (run (ev # es) L) = advance \<tau> (run es (advance now L))"
      using ev Look by simp
    also have "\<dots> = advance \<tau> (run es L)"
      using n l by (rule run_after_look)
    also have "\<dots> = advance \<tau> (run (filter (\<lambda>ev. snd ev \<noteq> Look) es) L)"
      using s b by (rule Cons.IH)
    finally show ?thesis using ev Look by simp
  qed
qed

lemma coalesced_deadline_filter:
  "coalesced_deadline D (filter (\<lambda>ev. snd ev \<noteq> Look) es) = coalesced_deadline D es"
  by (induction D es rule: coalesced_deadline.induct) simp_all

lemma overlapping_filter:
  "overlapping D (filter (\<lambda>ev. snd ev \<noteq> Look) es) = overlapping D es"
  by (induction D es rule: overlapping.induct) simp_all

lemma coalesced_deadline_append:
  "coalesced_deadline D (es @ es') = coalesced_deadline (coalesced_deadline D es) es'"
  by (induction D es rule: coalesced_deadline.induct) simp_all

lemma overlapping_append:
  "overlapping D (es @ es') = (overlapping D es \<and> overlapping (coalesced_deadline D es) es')"
  by (induction D es rule: overlapping.induct) simp_all

lemma coalesced_deadline_ge: "D \<le> coalesced_deadline D es"
proof (induction D es rule: coalesced_deadline.induct)
  case (2 D now j rest)
  have "D \<le> max D (now + job_delay j + job_duration j)" by simp
  also note 2
  finally show ?case by simp
qed simp_all

text \<open>A job still to come, which overlaps, arrives before the deadline armed now.\<close>

lemma before_next_job:
  assumes "overlapping D es" "\<forall>t \<in> set (map fst es). \<tau> \<le> t"
  shows "coalesced_deadline D es = D \<or> \<tau> < D"
  using assms
proof (induction D es rule: overlapping.induct)
  case (2 D now j rest)
  then have "\<tau> \<le> now" "now < D" by simp_all
  then show ?case by simp
qed simp_all

lemma armed_advance:
  assumes "armed T on D k L" "T \<le> now" "now < D"
  shows "armed now on D k (advance now L)"
  using assms
  by (cases "state L")
    (auto simp: armed_def advance_def fire_activation_def fire_deactivation_def due_def)

lemma armed_submit:
  assumes "armed T on D k L"
  shows "armed T on (max D (now + job_delay j + job_duration j)) k (submit now j L)"
  using assms
  by (cases "state L") (auto simp: armed_def submit_def later_deadline_def)

lemma armed_observe:
  assumes "armed T on D k L" "T \<le> \<tau>"
  shows "relay_level (advance \<tau> L) = (on \<le> \<tau> \<and> \<tau> < D)"
    and "off_transitions (advance \<tau> L) = (if D \<le> \<tau> then Suc k else k)"
  using assms
  by (cases "state L";
      auto simp: armed_def advance_def fire_activation_def fire_deactivation_def due_def)+

text \<open>
  The pulse of a lane in the middle of a pulse, under any further overlapping jobs: at a
  time after them, the relay is on exactly from the activation time until the latest
  deadline, and it has been switched off once more exactly from that deadline on.
\<close>

lemma armed_run:
  assumes "armed T on D k L" "sorted (map fst es)" "\<forall>t \<in> set (map fst es). T \<le> t \<and> t \<le> \<tau>"
    "T \<le> \<tau>" "overlapping D es" "\<forall>ev \<in> set es. snd ev \<noteq> Look"
  shows "relay_level (advance \<tau> (run es L)) = (on \<le> \<tau> \<and> \<tau> < coalesced_deadline D es)
     \<and> off_transitions (advance \<tau> (run es L))
         = (if coalesced_deadline D es \<le> \<tau> then Suc k else k)"
  using assms
proof (induction es arbitrary: T D L)
  case Nil
  with armed_observe [of T on D k L \<tau>] show ?case by simp
next
  case (Cons ev es)
  obtain now e where ev: "ev = (now, e)" by (cases ev)
  with Cons.prems obtain j where e: "e = Job j" by (cases e) auto
  from Cons.prems ev e have now: "T \<le> now" "now \<le> \<tau>" "now < D"
    and s: "sorted (map fst es)" and b: "\<forall>t \<in> set (map fst es). now \<le> t \<and> t \<le> \<tau>"
    and o: "overlapping (max D (now + job_delay j + job_duration j)) es"
    and nl: "\<forall>ev \<in> set es. snd ev \<noteq> Look"
    by auto
  from armed_advance [OF Cons.prems(1) now(1) now(3)]
  have "armed now on (max D (now + job_delay j + job_duration j)) k
          (submit now j (advance now L))"
    by (rule armed_submit)
  from Cons.IH [OF this s b now(2) o nl] ev e show ?case by simp
qed

lemma first_job_armed:
  assumes "0 \<le> job_duration j"
  shows "armed a (a + job_delay j) (a + job_delay j + job_duration j) 0
           (submit a j (advance a (idle_lane i)))"
  using assms
  by (simp add: armed_def submit_def advance_def fire_activation_def fire_deactivation_def
      due_def idle_lane_def)

lemma one_pulse:
  assumes dur: "0 \<le> job_duration j"
    and s: "sorted (map fst (es1 @ es2))"
    and o: "overlapping (a + job_delay j + job_duration j) (es1 @ es2)"
    and t1: "\<forall>t \<in> set (map fst es1). a \<le> t \<and> t \<le> \<tau>"
    and t2: "\<forall>t \<in> set (map fst es2). \<tau> \<le> t"
    and a: "a \<le> \<tau>"
  shows "relay_level (advance \<tau> (run es1 (submit a j (advance a (idle_lane i)))))
           = (a + job_delay j \<le> \<tau>
              \<and> \<tau> < coalesced_deadline (a + job_delay j + job_duration j) (es1 @ es2))"
    and "off_transitions (advance \<tau> (run es1 (submit a j (advance a (idle_lane i)))))
           = (if coalesced_deadline (a + job_delay j + job_duration j) (es1 @ es2) \<le> \<tau>
              then 1 else 0)"
proof -
  let ?L = "submit a j (advance a (idle_lane i))"
  let ?D0 = "a + job_delay j + job_duration j"
  let ?js = "filter (\<lambda>ev. snd ev \<noteq> Look) es1"
  let ?D1 = "coalesced_deadline ?D0 es1"
  from s have s1: "sorted (map fst es1)" by (simp add: sorted_append)
  from t1 have b1: "\<forall>t \<in> set (map fst es1). t \<le> \<tau>" by simp
  have eq: "advance \<tau> (run es1 ?L) = advance \<tau> (run ?js ?L)"
    using s1 b1 by (rule looks_do_not_matter)
  from s1 have sj: "sorted (map fst ?js)" by (simp add: sorted_filter)
  from t1 have bj: "\<forall>t \<in> set (map fst ?js). a \<le> t \<and> t \<le> \<tau>" by auto
  from o have oj: "overlapping ?D0 ?js" by (simp add: overlapping_append overlapping_filter)
  have nl: "\<forall>ev \<in> set ?js. snd ev \<noteq> Look" by simp
  from armed_run [OF first_job_armed [OF dur] sj bj a oj nl, of i]
  have r: "relay_level (advance \<tau> (run es1 ?L)) = (a + job_delay j \<le> \<tau> \<and> \<tau> < ?D1)"
    and c: "off_transitions (advance \<tau> (run es1 ?L)) = (if ?D1 \<le> \<tau> then 1 else 0)"
    by (simp_all add: eq coalesced_deadline_filter)
  from o have "overlapping ?D1 es2" by (simp add: overlapping_append)
  from before_next_job [OF this t2]
  have "coalesced_deadline ?D1 es2 = ?D1 \<or> \<tau> < ?D1" .
  moreover have "?D1 \<le> coalesced_deadline ?D1 es2" by (rule coalesced_deadline_ge)
  ultimately have d: "(\<tau> < coalesced_deadline ?D0 (es1 @ es2)) = (\<tau> < ?D1)"
    by (auto simp: coalesced_deadline_append)
  from r d show "relay_level (advance \<tau> (run es1 ?L))
           = (a + job_delay j \<le> \<tau> \<and> \<tau> < coalesced_deadline ?D0 (es1 @ es2))"
    by simp
  from c d show "off_transitions (advance \<tau> (run es1 ?L))
           = (if coalesced_deadline ?D0 (es1 @ es2) \<le> \<tau> then 1 else 0)"
    by (simp add: not_less [symmetric])
qed

text \<open>
  Claim C2. A job that arrives for a lane that is \<open>Pending\<close> or \<open>Active\<close> with the
  deadline \<open>d\<close> armed leaves the state, the activation time, the relay and the count of
  off transitions as they are, and sets the deactivation deadline to the later of the
  two, \<open>max d (now + delay + duration)\<close>.

  Overlapping jobs give one pulse. Let a job arrive at time \<open>a\<close> for an idle lane, and
  let any history follow in which the jobs overlap (each arrives before the latest
  deadline so far), with the lane looked at whenever and however often. At every time
  \<open>\<tau>\<close> from \<open>a\<close> on, with \<open>es1\<close> the part of the history up to \<open>\<tau>\<close> and \<open>es2\<close> the part
  still to come, the relay is on exactly when \<open>\<tau>\<close> is at or after the activation time
  \<open>a + delay\<close> of the first job and before the latest deadline of all the jobs, and the
  relay has been switched off never before that deadline and once from then on.

  In the example (lane 2, jobs at 0 s and 0.15 s, delay 0.1 s, duration 0.2 s),
  whenever and however often the lane is looked at: at a time before the second job
  the relay is on exactly from 0.1 s; at a time from the second job on the relay is on
  exactly before 0.45 s; and the relay has been switched off never before 0.45 s and
  once from then on. (The times 0.15 s and 0.45 s are written \<open>3 / 20\<close> and \<open>9 / 20\<close>.)
\<close>

theorem overlapping_jobs_coalesce:
  "(state t \<noteq> Idle \<and> deactivate_at t = Some d \<longrightarrow>
      state (submit now j t) = state t
      \<and> activate_at (submit now j t) = activate_at t
      \<and> relay_level (submit now j t) = relay_level t
      \<and> off_transitions (submit now j t) = off_transitions t
      \<and> deactivate_at (submit now j t) = Some (max d (now + job_delay j + job_duration j)))
   \<and> (0 \<le> job_duration j1 \<and> sorted (map fst (es1 @ es2))
        \<and> overlapping (a + job_delay j1 + job_duration j1) (es1 @ es2)
        \<and> (\<forall>u \<in> set (map fst es1). a \<le> u \<and> u \<le> \<sigma>) \<and> (\<forall>u \<in> set (map fst es2). \<sigma> \<le> u)
        \<and> a \<le> \<sigma> \<longrightarrow>
        relay_level (advance \<sigma> (run es1 (submit a j1 (advance a (idle_lane i)))))
          = (a + job_delay j1 \<le> \<sigma>
             \<and> \<sigma> < coalesced_deadline (a + job_delay j1 + job_duration j1) (es1 @ es2))
        \<and> off_transitions (advance \<sigma> (run es1 (submit a j1 (advance a (idle_lane i)))))
          = (if coalesced_deadline (a + job_delay j1 + job_duration j1) (es1 @ es2) \<le> \<sigma>
             then 1 else 0))
   \<and> (sorted ts \<and> (\<forall>u \<in> set ts. u \<le> \<tau>) \<and> 0 \<le> \<tau> \<and> \<tau> < 3 / 20 \<longrightarrow>
        relay_level (advance \<tau> (run ((0, Job (sample_job 0)) # looks ts) (idle_lane 2)))
          = (1 / 10 \<le> \<tau>)
        \<and> off_transitions (advance \<tau> (run ((0, Job (sample_job 0)) # looks ts) (idle_lane 2)))
          = 0)
   \<and> (sorted ts1 \<and> (\<forall>u \<in> set ts1. u \<le> 3 / 20) \<and> sorted ts2 \<and> (\<forall>u \<in> set ts2. u \<le> \<tau>')
        \<and> 3 / 20 \<le> \<tau>' \<longrightarrow>
        relay_level (advance \<tau>' (run ((0, Job (sample_job 0)) # looks ts1
                        @ (3 / 20, Job (sample_job (3 / 20))) # looks ts2) (idle_lane 2)))
          = (\<tau>' < 9 / 20)
        \<and> off_transitions (advance \<tau>' (run ((0, Job (sample_job 0)) # looks ts1
                        @ (3 / 20, Job (sample_job (3 / 20))) # looks ts2) (idle_lane 2)))
          = (if \<tau>' < 9 / 20 then 0 else 1))"
proof (intro conjI impI)
  assume a: "state t \<noteq> Idle \<and> deactivate_at t = Some d"
  then have "state t \<noteq> Idle" by simp
  note s = submit_busy [OF this, of now j]
  show "state (submit now j t) = state t" by (simp add: s)
  show "activate_at (submit now j t) = activate_at t" by (simp add: s)
  show "relay_level (submit now j t) = relay_level t" by (simp add: s)
  show "off_transitions (submit now j t) = off_transitions t" by (simp add: s)
  from a show "deactivate_at (submit now j t)
      = Some (max d (now + job_delay j + job_duration j))"
    by (simp add: s later_deadline_armed)
next
  assume a: "0 \<le> job_duration j1 \<and> sorted (map fst (es1 @ es2))
        \<and> overlapping (a + job_delay j1 + job_duration j1) (es1 @ es2)
        \<and> (\<forall>u \<in> set (map fst es1). a \<le> u \<and> u \<le> \<sigma>) \<and> (\<forall>u \<in> set (map fst es2). \<sigma> \<le> u)
        \<and> a \<le> \<sigma>"
  then have h: "0 \<le> job_duration j1" "sorted (map fst (es1 @ es2))"
    "overlapping (a + job_delay j1 + job_duration j1) (es1 @ es2)"
    "\<forall>u \<in> set (map fst es1). a \<le> u \<and> u \<le> \<sigma>" "\<forall>u \<in> set (map fst es2). \<sigma> \<le> u" "a \<le> \<sigma>"
    by blast+
  show "relay_level (advance \<sigma> (run es1 (submit a j1 (advance a (idle_lane i)))))
          = (a + job_delay j1 \<le> \<sigma>
             \<and> \<sigma> < coalesced_deadline (a + job_delay j1 + job_duration j1) (es1 @ es2))"
    using h by (rule one_pulse(1))
  show "off_transitions (advance \<sigma> (run es1 (submit a j1 (advance a (idle_lane i)))))
          = (if coalesced_deadline (a + job_delay j1 + job_duration j1) (es1 @ es2) \<le> \<sigma>
             then 1 else 0)"
    using h by (rule one_pulse(2))
next
  assume a: "sorted ts \<and> (\<forall>u \<in> set ts. u \<le> \<tau>) \<and> 0 \<le> \<tau> \<and> \<tau> < 3 / 20"
  then have e: "advance \<tau> (run ((0, Job (sample_job 0)) # looks ts) (idle_lane 2)) =
     advance \<tau> \<lparr> lane = 2, state = Pending, activate_at = Some (1 / 10),
                   deactivate_at = Some (3 / 10), relay_level = False, off_transitions = 0 \<rparr>"
    by (intro before_second_job) simp_all
  from a show "relay_level (advance \<tau> (run ((0, Job (sample_job 0)) # looks ts) (idle_lane 2)))
          = (1 / 10 \<le> \<tau>)"
    unfolding e by (simp add: advance_def fire_activation_def fire_deactivation_def due_def)
  from a show "off_transitions (advance \<tau> (run ((0, Job (sample_job 0)) # looks ts) (idle_lane 2)))
          = 0"
    unfolding e by (simp add: advance_def fire_activation_def fire_deactivation_def due_def)
next
  assume a: "sorted ts1 \<and> (\<forall>u \<in> set ts1. u \<le> 3 / 20) \<and> sorted ts2 \<and> (\<forall>u \<in> set ts2. u \<le> \<tau>')
        \<and> 3 / 20 \<le> \<tau>'"
  then have e: "advance \<tau>' (run ((0, Job (sample_job 0)) # looks ts1
                        @ (3 / 20, Job (sample_job (3 / 20))) # looks ts2) (idle_lane 2)) =
     advance \<tau>' \<lparr> lane = 2, state = Active, activate_at = Some (1 / 10),
                   deactivate_at = Some (9 / 20), relay_level = True, off_transitions = 0 \<rparr>"
    by (intro after_second_job) simp_all
  show "relay_level (advance \<tau>' (run ((0, Job (sample_job 0)) # looks ts1
                        @ (3 / 20, Job (sample_job (3 / 20))) # looks ts2) (idle_lane 2)))
          = (\<tau>' < 9 / 20)"
    unfolding e by (auto simp: advance_def fire_activation_def fire_deactivation_def due_def)
  show "off_transitions (advance \<tau>' (run ((0, Job (sample_job 0)) # looks ts1
                        @ (3 / 20, Job (sample_job (3 / 20))) # looks ts2) (idle_lane 2)))
          = (if \<tau>' < 9 / 20 then 0 else 1)"
    unfolding e by (auto simp: advance_def fire_activation_def fire_deactivation_def due_def)
qed

text \<open>
  The witness takes, beside the example, a second job whose own deadline, 0.2 s, is
  earlier than the armed one, 0.3 s: the deadline stays at 0.3 s, and at 0.25 s the
  relay is still on.
\<close>

theorem overlapping_jobs_witness:
  "state \<lparr> lane = 2, state = Pending, activate_at = Some (1 / 10), deactivate_at = Some (3 / 10),
           relay_level = False, off_transitions = 0 \<rparr> = Pending
   \<and> activate_at (submit (3 / 20) (sample_job (3 / 20))
        \<lparr> lane = 2, state = Pending, activate_at = Some (1 / 10), deactivate_at = Some (3 / 10),
          relay_level = False, off_transitions = 0 \<rparr>) = Some (1 / 10)
   \<and> deactivate_at (submit (3 / 20) (sample_job (3 / 20))
        \<lparr> lane = 2, state = Pending, activate_at = Some (1 / 10), deactivate_at = Some (3 / 10),
          relay_level = False, off_transitions = 0 \<rparr>) = Some (9 / 20)
   \<and> deactivate_at (submit (3 / 20) (short_job (3 / 20))
        \<lparr> lane = 2, state = Pending, activate_at = Some (1 / 10), deactivate_at = Some (3 / 10),
          relay_level = False, off_transitions = 0 \<rparr>) = Some (3 / 10)
   \<and> sorted (map fst [(1 / 20 :: real, Look), (3 / 20, Job (short_job (3 / 20)))])
   \<and> overlapping (0 + job_delay (sample_job 0) + job_duration (sample_job 0))
        [(1 / 20, Look), (3 / 20, Job (short_job (3 / 20)))]
   \<and> coalesced_deadline (0 + job_delay (sample_job 0) + job_duration (sample_job 0))
        [(1 / 20, Look), (3 / 20, Job (short_job (3 / 20)))] = 3 / 10
   \<and> relay_level (advance (1 / 4)
        (run [(1 / 20, Look), (3 / 20, Job (short_job (3 / 20)))]
           (submit 0 (sample_job 0) (advance 0 (idle_lane 2))))) = True
   \<and> off_transitions (advance (1 / 4)
        (run [(1 / 20, Look), (3 / 20, Job (short_job (3 / 20)))]
           (submit 0 (sample_job 0) (advance 0 (idle_lane 2))))) = 0
   \<and> sorted [1 / 20, 1 / 10 :: real] \<and> sorted [3 / 10, 2 / 5 :: real]
   \<and> relay_level (advance (1 / 10)
        (run ((0, Job (sample_job 0)) # looks [1 / 20, 1 / 10]) (idle_lane 2))) = True
   \<and> relay_level (advance (2 / 5)
        (run ((0, Job (sample_job 0)) # looks [1 / 20, 1 / 10]
              @ (3 / 20, Job (sample_job (3 / 20))) # looks [3 / 10, 2 / 5]) (idle_lane 2))) = True
   \<and> off_transitions (advance (2 / 5)
        (run ((0, Job (sample_job 0)) # looks [1 / 20, 1 / 10]
              @ (3 / 20, Job (sample_job (3 / 20))) # looks [3 / 10, 2 / 5]) (idle_lane 2))) = 0"
  using overlapping_jobs_coalesce
    [where t = "\<lparr> lane = 2, state = Pending, activate_at = Some (1 / 10),
                   deactivate_at = Some (3 / 10), relay_level = False, off_transitions = 0 \<rparr>"
       and d = "3 / 10" and now = "3 / 20" and j = "sample_job (3 / 20)"
       and ?j1.0 = "sample_job 0" and a = 0 and i = 2
       and ?es1.0 = "[(1 / 20, Look), (3 / 20, Job (short_job (3 / 20)))]" and ?es2.0 = "[]"
       and \<sigma> = "1 / 4"
       and ts = "[1 / 20, 1 / 10]" and \<tau> = "1 / 10"
       and ?ts1.0 = "[1 / 20, 1 / 10]" and ?ts2.0 = "[3 / 10, 2 / 5]" and \<tau>' = "2 / 5"]
    overlapping_jobs_coalesce
    [where t = "\<lparr> lane = 2, state = Pending, activate_at = Some (1 / 10),
                   deactivate_at = Some (3 / 10), relay_level = False, off_transitions = 0 \<rparr>"
       and d = "3 / 10" and now = "3 / 20" and j = "short_job (3 / 20)"
       and ?j1.0 = "sample_job 0" and a = 0 and i = 2
       and ?es1.0 = "[]" and ?es2.0 = "[]" and \<sigma> = 0
       and ts = "[]" and \<tau> = 0 and ?ts1.0 = "[]" and ?ts2.0 = "[]" and \<tau>' = "3 / 20"]
  by (simp add: sample_job_def short_job_def)

end
